theory Spec2Isabelle
  imports Main "HOL-Library.Word"
begin

section \<open>Data model\<close>

text \<open>
  The backend keeps its users in a relational table reached through an ORM client
  (\<^verbatim>\<open>prisma.user\<close>). A row of the table is a record; the table is the list of its
  rows in insertion order together with the next value of the \<^verbatim>\<open>SERIAL\<close> primary key.
  Times are JavaScript times: milliseconds since the epoch, as \<^verbatim>\<open>Date.now()\<close>
  returns them.

  Request fields (\<^verbatim>\<open>req.body\<close>, \<^verbatim>\<open>req.query\<close>) are modelled as strings that are
  present: a request that leaves a field out, or sends a value that is not a string, is
  outside this model. The persistence layer is assumed to answer every call (a lost
  database connection is not modelled), while a failure of the mail relay is.
\<close>

type_synonym timestamp = nat

record user =
  user_id :: nat
  name :: string
  email :: string
  password :: string
  isVerified :: bool
  verifyToken :: "string option"
  resetToken :: "string option"
  resetTokenExpiry :: "timestamp option"

record store =
  users :: "user list"
  next_id :: nat

text \<open>The claims a session token carries: \<^verbatim>\<open>{ id, iat, exp }\<close>, the last two in seconds.\<close>

record claims =
  jwt_id :: nat
  jwt_iat :: nat
  jwt_exp :: nat

text \<open>
  The third-party libraries and the process environment the handlers call into.
  They are parameters of the model: \<^verbatim>\<open>bcrypt.hash\<close> (the salt it draws is made an
  argument), \<^verbatim>\<open>bcrypt.compare\<close>, the compact serialisation of a token signed under
  a secret, its inverse (parsing plus signature check under whatever
  \<^verbatim>\<open>process.env.JWT_SECRET\<close> holds, set or not; \<open>None\<close> for a token the library refuses),
  and \<^verbatim>\<open>process.env.JWT_SECRET\<close> itself.
\<close>

record deps =
  bcrypt_hash :: "string \<Rightarrow> string \<Rightarrow> string"
  bcrypt_compare :: "string \<Rightarrow> string \<Rightarrow> bool"
  jwt_encode :: "string \<Rightarrow> claims \<Rightarrow> string"
  jwt_decode :: "string option \<Rightarrow> string \<Rightarrow> claims option"
  JWT_SECRET :: "string option"

text \<open>
  What one request reads from the outside world: the clock, the bytes that
  \<^verbatim>\<open>crypto.randomBytes(32)\<close> returns, the salt \<^verbatim>\<open>bcrypt.hash\<close> draws, and whether
  \<^verbatim>\<open>transporter.sendMail\<close> resolves.
\<close>

record env =
  Date_now :: timestamp
  randomBytes :: "8 word list"
  bcrypt_salt :: string
  sendMail_ok :: bool

datatype exn =
  TypeError | MailError | PrismaError | SecretError | JsonWebTokenError | TokenExpiredError

text \<open>
  A JSON response body: \<^verbatim>\<open>{ error: "..." }\<close>, \<^verbatim>\<open>{ error: err.message }\<close> for a caught
  exception, \<^verbatim>\<open>{ message: "..." }\<close> or \<^verbatim>\<open>{ token }\<close>.
\<close>

datatype json = Error string | ErrorOf exn | Message string | Token string

record response =
  status :: nat
  body :: json

definition reply :: "nat \<Rightarrow> json \<Rightarrow> response" where
  "reply code b = \<lparr>status = code, body = b\<rparr>"

section \<open>The ORM calls\<close>

definition findUnique_email :: "string \<Rightarrow> store \<Rightarrow> user option" where
  "findUnique_email e s = find (\<lambda>u. email u = e) (users s)"

definition findUnique_id :: "nat \<Rightarrow> store \<Rightarrow> user option" where
  "findUnique_id i s = find (\<lambda>u. user_id u = i) (users s)"

definition findFirst :: "(user \<Rightarrow> bool) \<Rightarrow> store \<Rightarrow> user option" where
  "findFirst P s = find P (users s)"

text \<open>\<^verbatim>\<open>prisma.user.update({ where: { id }, data })\<close> throws when no row has the id.\<close>

definition update_user :: "nat \<Rightarrow> (user \<Rightarrow> user) \<Rightarrow> store \<Rightarrow> exn + store" where
  "update_user i f s =
     (if list_ex (\<lambda>u. user_id u = i) (users s)
      then Inr (s\<lparr>users := map (\<lambda>u. if user_id u = i then f u else u) (users s)\<rparr>)
      else Inl PrismaError)"

text \<open>
  Modelled from the spec: the current table schema is not among the sources (only the
  first migration is, which predates the verification and reset columns). The spec's
  data model gives the columns a created row gets beyond the ones \<^verbatim>\<open>create\<close> is
  handed: \<open>isVerified\<close> defaults to false, \<open>resetToken\<close> and \<open>resetTokenExpiry\<close> are
  null. The id is the next value of the sequence; the unique index on the email
  makes the insertion throw on a duplicate.
\<close>

definition create_user :: "string \<Rightarrow> string \<Rightarrow> string \<Rightarrow> string \<Rightarrow> store \<Rightarrow> exn + store" where
  "create_user nm em pw vt s =
     (if list_ex (\<lambda>u. email u = em) (users s) then Inl PrismaError
      else Inr (s\<lparr>users := users s @
                  [\<lparr>user_id = next_id s, name = nm, email = em, password = pw,
                    isVerified = False, verifyToken = Some vt,
                    resetToken = None, resetTokenExpiry = None\<rparr>],
                next_id := next_id s + 1\<rparr>))"

section \<open>Opaque tokens\<close>

text \<open>
  \<^verbatim>\<open>crypto.randomBytes(32).toString("hex")\<close>: two lower-case hexadecimal digits for
  every byte, the high nibble first.
\<close>

definition hex_digit :: "nat \<Rightarrow> char" where
  "hex_digit n = ''0123456789abcdef'' ! n"

definition hex_byte :: "8 word \<Rightarrow> string" where
  "hex_byte b = [hex_digit (unat b div 16), hex_digit (unat b mod 16)]"

definition toString_hex :: "8 word list \<Rightarrow> string" where
  "toString_hex bs = concat (map hex_byte bs)"

section \<open>Session tokens\<close>

text \<open>
  \<^verbatim>\<open>jwt.sign({ id }, secret, { expiresIn: "1h" })\<close>: the library refuses a secret that
  is unset or empty, stamps \<open>iat\<close> with the clock in whole seconds and sets \<open>exp\<close> 3600
  seconds later.
\<close>

definition jwt_sign :: "deps \<Rightarrow> nat \<Rightarrow> string option \<Rightarrow> timestamp \<Rightarrow> exn + string" where
  "jwt_sign d i secret now =
     (case secret of
        None \<Rightarrow> Inl SecretError
      | Some k \<Rightarrow>
          if k = [] then Inl SecretError
          else Inr (jwt_encode d k
                 \<lparr>jwt_id = i, jwt_iat = now div 1000, jwt_exp = now div 1000 + 3600\<rparr>))"

text \<open>
  \<^verbatim>\<open>jwt.verify(token, secret, callback)\<close>: an error when the token does not parse or
  does not verify under the secret, and when the clock in whole seconds has reached
  \<open>exp\<close>; the claims otherwise. (Every token signed here carries \<open>exp\<close>.)
\<close>

definition jwt_verify :: "deps \<Rightarrow> string \<Rightarrow> string option \<Rightarrow> timestamp \<Rightarrow> exn + claims" where
  "jwt_verify d token secret now =
     (case jwt_decode d secret token of
        None \<Rightarrow> Inl JsonWebTokenError
      | Some c \<Rightarrow>
          if jwt_exp c \<le> now div 1000 then Inl TokenExpiredError else Inr c)"

section \<open>The Auth Guard\<close>

text \<open>JavaScript's \<^verbatim>\<open>s.split(c)\<close> for a one-character separator, and \<^verbatim>\<open>xs[i]\<close>.\<close>

fun js_split :: "char \<Rightarrow> string \<Rightarrow> string list" where
  "js_split c [] = [[]]"
| "js_split c (x # xs) =
     (if x = c then [] # js_split c xs
      else (case js_split c xs of [] \<Rightarrow> [[x]] | y # ys \<Rightarrow> (x # y) # ys))"

definition at_index :: "'a list \<Rightarrow> nat \<Rightarrow> 'a option" where
  "at_index xs i = (if i < length xs then Some (xs ! i) else None)"

text \<open>
  \<^verbatim>\<open>authHeader && authHeader.split(" ")[1]\<close>: the header when it is missing or
  empty (both falsy), the second space-separated field otherwise.
\<close>

definition bearer_token :: "string option \<Rightarrow> string option" where
  "bearer_token authHeader =
     (case authHeader of
        None \<Rightarrow> None
      | Some h \<Rightarrow> if h = [] then Some [] else at_index (js_split (CHR '' '') h) 1)"

definition falsy :: "string option \<Rightarrow> bool" where
  "falsy v = (case v of None \<Rightarrow> True | Some x \<Rightarrow> x = [])"

text \<open>
  \<^verbatim>\<open>authenticateToken(req, res, next)\<close>: \<open>Inl\<close> is the response the guard sends
  itself, \<open>Inr\<close> the claims it stores in \<^verbatim>\<open>req.user\<close> before calling \<^verbatim>\<open>next()\<close>.
  The two messages are Portuguese; their accented letters are written as UTF-8 bytes.
\<close>

definition authenticateToken :: "deps \<Rightarrow> env \<Rightarrow> string option \<Rightarrow> response + claims" where
  "authenticateToken d w authHeader =
     (let token = bearer_token authHeader in
      if falsy token
      then Inl (reply 401 (Error (''Token n'' @ [CHR 0xC3, CHR 0xA3] @ ''o fornecido'')))
      else (case jwt_verify d (the token) (JWT_SECRET d) (Date_now w) of
              Inl err \<Rightarrow>
                Inl (reply 403
                  (Error (''Token inv'' @ [CHR 0xC3, CHR 0xA1] @ ''lido ou expirado'')))
            | Inr payload \<Rightarrow> Inr payload))"

text \<open>
  A protected route \<^verbatim>\<open>app.METHOD(path, authenticateToken, handler)\<close>: the handler
  runs only when the guard calls \<^verbatim>\<open>next()\<close>, on the claims the guard stored.
\<close>

definition protected :: "deps \<Rightarrow> env \<Rightarrow> string option \<Rightarrow> (claims \<Rightarrow> 'a) \<Rightarrow> response + 'a" where
  "protected d w authHeader handler =
     (case authenticateToken d w authHeader of
        Inl res \<Rightarrow> Inl res
      | Inr payload \<Rightarrow> Inr (handler payload))"

section \<open>The account routes\<close>

definition signup :: "deps \<Rightarrow> env \<Rightarrow> string \<Rightarrow> string \<Rightarrow> string \<Rightarrow> store \<Rightarrow> response \<times> store" where
  "signup d w nm em pw s =
     (case findUnique_email em s of
        Some existing \<Rightarrow> (reply 400 (Error ''Email already registered''), s)
      | None \<Rightarrow>
          (let hashedPass = bcrypt_hash d (bcrypt_salt w) pw;
               verifyTok = toString_hex (randomBytes w)
           in case create_user nm em hashedPass verifyTok s of
                Inl e \<Rightarrow> (reply 500 (ErrorOf e), s)
              | Inr s' \<Rightarrow>
                  if sendMail_ok w
                  then (reply 200 (Message
                    ''Account created successfully! Please check your email to verify your account.''), s')
                  else (reply 500 (ErrorOf MailError), s')))"

definition verify_email :: "string \<Rightarrow> store \<Rightarrow> response \<times> store" where
  "verify_email token s =
     (case findFirst (\<lambda>u. verifyToken u = Some token) s of
        None \<Rightarrow> (reply 400 (Error ''Invalid token''), s)
      | Some u \<Rightarrow>
          (case update_user (user_id u) (\<lambda>r. r\<lparr>isVerified := True, verifyToken := None\<rparr>) s of
             Inl e \<Rightarrow> (reply 500 (ErrorOf e), s)
           | Inr s' \<Rightarrow>
               (reply 200 (Message ''Email verified successfully! You can now log in.''), s')))"

definition login :: "deps \<Rightarrow> env \<Rightarrow> string \<Rightarrow> string \<Rightarrow> store \<Rightarrow> response \<times> store" where
  "login d w em pw s =
     (case findUnique_email em s of
        None \<Rightarrow> (reply 400 (Error ''User not found''), s)
      | Some u \<Rightarrow>
          if \<not> isVerified u
          then (reply 403 (Error ''Please verify your email before logging in.''), s)
          else if \<not> bcrypt_compare d pw (password u)
          then (reply 400 (Error ''Invalid credentials''), s)
          else (case jwt_sign d (user_id u) (JWT_SECRET d) (Date_now w) of
                  Inl e \<Rightarrow> (reply 500 (ErrorOf e), s)
                | Inr token \<Rightarrow> (reply 200 (Token token), s)))"

text \<open>
  The handler of \<^verbatim>\<open>PUT /api/account/password\<close>, given \<^verbatim>\<open>req.user\<close>. Reading
  \<^verbatim>\<open>user.password\<close> when the lookup returned null throws a TypeError, which the
  handler's \<^verbatim>\<open>catch\<close> turns into a 500.
\<close>

definition account_password ::
    "deps \<Rightarrow> env \<Rightarrow> claims \<Rightarrow> string \<Rightarrow> string \<Rightarrow> store \<Rightarrow> response \<times> store" where
  "account_password d w req_user current newPass s =
     (case findUnique_id (jwt_id req_user) s of
        None \<Rightarrow> (reply 500 (ErrorOf TypeError), s)
      | Some u \<Rightarrow>
          if \<not> bcrypt_compare d current (password u)
          then (reply 401 (Error ''Senha atual incorreta''), s)
          else (let hashedPass = bcrypt_hash d (bcrypt_salt w) newPass in
                case update_user (jwt_id req_user) (\<lambda>r. r\<lparr>password := hashedPass\<rparr>) s of
                  Inl e \<Rightarrow> (reply 500 (ErrorOf e), s)
                | Inr s' \<Rightarrow> (reply 200 (Message ''Senha alterada com sucesso''), s')))"

definition put_account_password ::
    "deps \<Rightarrow> env \<Rightarrow> string option \<Rightarrow> string \<Rightarrow> string \<Rightarrow> store \<Rightarrow> response \<times> store" where
  "put_account_password d w authHeader current newPass s =
     (case protected d w authHeader (\<lambda>req_user. account_password d w req_user current newPass s) of
        Inl res \<Rightarrow> (res, s)
      | Inr out \<Rightarrow> out)"

definition forgot_password :: "deps \<Rightarrow> env \<Rightarrow> string \<Rightarrow> store \<Rightarrow> response \<times> store" where
  "forgot_password d w em s =
     (case findUnique_email em s of
        None \<Rightarrow> (reply 404 (Error ''User not found''), s)
      | Some u \<Rightarrow>
          (let resetTok = toString_hex (randomBytes w);
               expiry = Date_now w + 1000 * 60 * 15
           in case update_user (user_id u)
                     (\<lambda>r. r\<lparr>resetToken := Some resetTok, resetTokenExpiry := Some expiry\<rparr>) s of
                Inl e \<Rightarrow> (reply 500 (ErrorOf e), s)
              | Inr s' \<Rightarrow>
                  if sendMail_ok w then (reply 200 (Message ''Password reset email sent''), s')
                  else (reply 500 (ErrorOf MailError), s')))"

text \<open>
  The \<^verbatim>\<open>where\<close> clause of the lookup in \<^verbatim>\<open>POST /api/reset-password\<close>:
  \<^verbatim>\<open>{ resetToken: token, resetTokenExpiry: { gte: new Date() } }\<close>. A null column
  matches neither condition.
\<close>

definition reset_where :: "string \<Rightarrow> timestamp \<Rightarrow> user \<Rightarrow> bool" where
  "reset_where token now u =
     (resetToken u = Some token \<and>
      (case resetTokenExpiry u of None \<Rightarrow> False | Some e \<Rightarrow> now \<le> e))"

definition reset_password :: "deps \<Rightarrow> env \<Rightarrow> string \<Rightarrow> string \<Rightarrow> store \<Rightarrow> response \<times> store" where
  "reset_password d w token newPass s =
     (case findFirst (reset_where token (Date_now w)) s of
        None \<Rightarrow> (reply 400 (Error ''Invalid or expired token''), s)
      | Some u \<Rightarrow>
          (let hashedPass = bcrypt_hash d (bcrypt_salt w) newPass in
           case update_user (user_id u)
                  (\<lambda>r. r\<lparr>password := hashedPass, resetToken := None, resetTokenExpiry := None\<rparr>) s of
             Inl e \<Rightarrow> (reply 500 (ErrorOf e), s)
           | Inr s' \<Rightarrow> (reply 200 (Message ''Password reset successful''), s')))"

section \<open>Sequences of requests\<close>

datatype request =
    Signup string string string
  | VerifyEmail string
  | Login string string
  | AccountPassword "string option" string string
  | ForgotPassword string
  | ResetPassword string string

fun handle :: "deps \<Rightarrow> env \<Rightarrow> request \<Rightarrow> store \<Rightarrow> response \<times> store" where
  "handle d w (Signup nm em pw) s = signup d w nm em pw s"
| "handle d w (VerifyEmail token) s = verify_email token s"
| "handle d w (Login em pw) s = login d w em pw s"
| "handle d w (AccountPassword authHeader current newPass) s =
     put_account_password d w authHeader current newPass s"
| "handle d w (ForgotPassword em) s = forgot_password d w em s"
| "handle d w (ResetPassword token newPass) s = reset_password d w token newPass s"

definition empty_store :: store where
  "empty_store = \<lparr>users = [], next_id = 1\<rparr>"

fun run :: "deps \<Rightarrow> (env \<times> request) list \<Rightarrow> store \<Rightarrow> store" where
  "run d [] s = s"
| "run d ((w, req) # rest) s = run d rest (snd (handle d w req s))"

text \<open>The constraints the table declares: primary key, unique email, ids from the sequence.\<close>

definition wf_store :: "store \<Rightarrow> bool" where
  "wf_store s =
     (distinct (map user_id (users s)) \<and> distinct (map email (users s)) \<and>
      list_all (\<lambda>u. user_id u < next_id s) (users s))"

section \<open>Properties of a store\<close>

definition verification_ok :: "store \<Rightarrow> bool" where
  "verification_ok s = list_all (\<lambda>u. verifyToken u = None \<longrightarrow> isVerified u) (users s)"

definition holds_reset_token :: "string \<Rightarrow> store \<Rightarrow> bool" where
  "holds_reset_token t s = list_ex (\<lambda>u. resetToken u = Some t) (users s)"

definition only_holder :: "string \<Rightarrow> nat \<Rightarrow> store \<Rightarrow> bool" where
  "only_holder t i s = list_all (\<lambda>v. resetToken v = Some t \<longrightarrow> user_id v = i) (users s)"

definition has_account :: "nat \<Rightarrow> string \<Rightarrow> store \<Rightarrow> bool" where
  "has_account i e s = list_ex (\<lambda>v. user_id v = i \<and> email v = e) (users s)"

text \<open>The verify tokens in a store, and the tokens the signup requests of a sequence draw.\<close>

definition verify_tokens :: "store \<Rightarrow> string list" where
  "verify_tokens s = List.map_filter verifyToken (users s)"

fun is_signup :: "request \<Rightarrow> bool" where
  "is_signup (Signup nm em pw) = True"
| "is_signup req = False"

definition signup_draws :: "(env \<times> request) list \<Rightarrow> string list" where
  "signup_draws evs = map (\<lambda>e. toString_hex (randomBytes (fst e))) (filter (\<lambda>e. is_signup (snd e)) evs)"

section \<open>A concrete deployment\<close>

text \<open>
  Stand-ins for the libraries, small enough to evaluate: the hash is the salt followed
  by the plaintext, and the token library knows one token, for user 1 signed in
  during second 0.
\<close>

definition demo_deps :: deps where
  "demo_deps =
     \<lparr>bcrypt_hash = (\<lambda>salt pw. salt @ pw),
      bcrypt_compare = (\<lambda>pw h. drop 4 h = pw),
      jwt_encode = (\<lambda>k c. ''eyJ.demo.sig''),
      jwt_decode = (\<lambda>k t. if k = Some ''s3cret'' \<and> t = ''eyJ.demo.sig''
                            then Some \<lparr>jwt_id = 1, jwt_iat = 0, jwt_exp = 3600\<rparr> else None),
      JWT_SECRET = Some ''s3cret''\<rparr>"

definition demo_env :: "timestamp \<Rightarrow> 8 word list \<Rightarrow> env" where
  "demo_env t bs = \<lparr>Date_now = t, randomBytes = bs, bcrypt_salt = ''salt'', sendMail_ok = True\<rparr>"

definition ann :: user where
  "ann = \<lparr>user_id = 1, name = ''Ann'', email = ''ann@x.com'', password = ''saltpw1'',
          isVerified = True, verifyToken = None,
          resetToken = Some ''r1'', resetTokenExpiry = Some 900000\<rparr>"

definition demo_bytes :: "8 word list" where
  "demo_bytes = [0x00, 0x01, 0x0a, 0x10, 0x7f, 0x80, 0xab, 0xff,
                 0x00, 0x01, 0x0a, 0x10, 0x7f, 0x80, 0xab, 0xff,
                 0x00, 0x01, 0x0a, 0x10, 0x7f, 0x80, 0xab, 0xff,
                 0x00, 0x01, 0x0a, 0x10, 0x7f, 0x80, 0xab, 0xff]"

definition bob :: user where
  "bob = \<lparr>user_id = 2, name = ''Bob'', email = ''bob@x.com'', password = ''saltpw9'',
          isVerified = False, verifyToken = Some ''v1'',
          resetToken = None, resetTokenExpiry = None\<rparr>"

definition demo_store :: store where
  "demo_store = \<lparr>users = [ann, bob], next_id = 3\<rparr>"

definition demo_bytes2 :: "8 word list" where
  "demo_bytes2 = [0xff, 0xab, 0x80, 0x7f, 0x10, 0x0a, 0x01, 0x00,
                  0xff, 0xab, 0x80, 0x7f, 0x10, 0x0a, 0x01, 0x00,
                  0xff, 0xab, 0x80, 0x7f, 0x10, 0x0a, 0x01, 0x00,
                  0xff, 0xab, 0x80, 0x7f, 0x10, 0x0a, 0x01, 0x00]"

definition carol_requests :: "(env \<times> request) list" where
  "carol_requests =
     [(demo_env 5 demo_bytes, Signup ''Carol'' ''carol@x.com'' ''pw5''),
      (demo_env 6 [], VerifyEmail
         ''00010a107f80abff00010a107f80abff00010a107f80abff00010a107f80abff'')]"

definition in_between :: "(env \<times> request) list" where
  "in_between = [(demo_env 1500 [], Login ''ann@x.com'' ''pw1'')]"

definition twice_forgotten :: store where
  "twice_forgotten =
     snd (forgot_password demo_deps (demo_env 2000 demo_bytes2) ''ann@x.com''
       (run demo_deps in_between
         (snd (forgot_password demo_deps (demo_env 1000 demo_bytes) ''ann@x.com'' demo_store))))"

section \<open>Facts about the ORM calls\<close>

lemma find_in_set: "find P xs = Some x \<Longrightarrow> x \<in> set xs \<and> P x"
  by (induction xs) (auto split: if_splits)

lemma find_None_set: "(find P xs = None) = (\<forall>x\<in>set xs. \<not> P x)"
  by (induction xs) auto

lemma update_user_present:
  "u \<in> set (users s) \<Longrightarrow>
   update_user (user_id u) f s =
     Inr (s\<lparr>users := map (\<lambda>v. if user_id v = user_id u then f v else v) (users s)\<rparr>)"
  by (auto simp: update_user_def list_ex_iff)

lemma find_filter_hd: "find P xs = (case filter P xs of [] \<Rightarrow> None | x # _ \<Rightarrow> Some x)"
  by (induction xs) auto

lemma find_by_key:
  "distinct (map f xs) \<Longrightarrow> x \<in> set xs \<Longrightarrow> find (\<lambda>y. f y = f x) xs = Some x"
  by (induction xs) (auto simp: image_iff)

lemma same_key_same_row:
  "distinct (map f xs) \<Longrightarrow> x \<in> set xs \<Longrightarrow> y \<in> set xs \<Longrightarrow> (f y = f x) = (y = x)"
  by (auto simp: distinct_map dest: inj_onD)

lemma update_user_row:
  assumes "distinct (map user_id (users s))" and "u \<in> set (users s)"
  shows "update_user (user_id u) f s =
           Inr (s\<lparr>users := map (\<lambda>v. if v = u then f v else v) (users s)\<rparr>)"
proof -
  have "map (\<lambda>v. if user_id v = user_id u then f v else v) (users s) =
        map (\<lambda>v. if v = u then f v else v) (users s)"
    using assms by (intro map_cong refl) (simp add: same_key_same_row)
  with assms(2) show ?thesis
    by (simp add: update_user_present)
qed

lemma findUnique_id_row:
  "distinct (map user_id (users s)) \<Longrightarrow> u \<in> set (users s) \<Longrightarrow>
   findUnique_id (user_id u) s = Some u"
  by (simp add: findUnique_id_def find_by_key)

section \<open>Reset password: the token is honoured up to and including its expiry\<close>

lemma reset_where_iff:
  "reset_where token now u =
     (resetToken u = Some token \<and> (\<exists>e. resetTokenExpiry u = Some e \<and> now \<le> e))"
  by (simp add: reset_where_def split: option.splits)

lemma reset_password_hit:
  assumes "findFirst (reset_where token (Date_now w)) s = Some u"
  shows "u \<in> set (users s) \<and> reset_where token (Date_now w) u \<and>
         reset_password d w token newPass s =
            (reply 200 (Message ''Password reset successful''),
             s\<lparr>users := map (\<lambda>v. if user_id v = user_id u
                                  then v\<lparr>password := bcrypt_hash d (bcrypt_salt w) newPass,
                                         resetToken := None, resetTokenExpiry := None\<rparr>
                                  else v) (users s)\<rparr>)"
proof -
  from assms have u: "u \<in> set (users s)" "reset_where token (Date_now w) u"
    using find_in_set [of "reset_where token (Date_now w)" "users s" u]
    by (simp_all add: findFirst_def)
  with assms show ?thesis
    by (simp add: reset_password_def update_user_present)
qed

lemma reset_password_miss:
  assumes "\<forall>u\<in>set (users s). \<not> reset_where token (Date_now w) u"
  shows "reset_password d w token newPass s =
           (reply 400 (Error ''Invalid or expired token''), s)"
  using assms by (simp add: reset_password_def findFirst_def find_None_set [THEN iffD2])

text \<open>
  C1, as the code has it. A reset-password request with token \<open>token\<close> at time
  \<open>Date_now w\<close> succeeds exactly when some user has that reset token and an expiry that
  is not earlier than the current time (the lookup compares with \<^verbatim>\<open>gte\<close>). On success
  the response is 200, and a user holding the token unexpired gets the hash of the new
  password while the reset token and its expiry are cleared; every row with another id
  is left as it was. Otherwise the response is 400 "Invalid or expired token" and the
  store is unchanged.
\<close>

theorem reset_password_until_expiry:
  "(if \<exists>u\<in>set (users s). resetToken u = Some token \<and>
          (\<exists>e. resetTokenExpiry u = Some e \<and> Date_now w \<le> e)
    then \<exists>u\<in>set (users s). resetToken u = Some token \<and>
          (\<exists>e. resetTokenExpiry u = Some e \<and> Date_now w \<le> e) \<and>
          reset_password d w token newPass s =
            (reply 200 (Message ''Password reset successful''),
             s\<lparr>users := map (\<lambda>v. if user_id v = user_id u
                                  then v\<lparr>password := bcrypt_hash d (bcrypt_salt w) newPass,
                                         resetToken := None, resetTokenExpiry := None\<rparr>
                                  else v) (users s)\<rparr>)
    else reset_password d w token newPass s =
           (reply 400 (Error ''Invalid or expired token''), s))"
  (is "if ?C then ?A else ?B")
proof (cases ?C)
  case True
  then have "\<exists>u\<in>set (users s). reset_where token (Date_now w) u"
    by (simp add: reset_where_iff)
  then obtain u where "findFirst (reset_where token (Date_now w)) s = Some u"
    using find_None_set [of "reset_where token (Date_now w)" "users s"]
    by (cases "findFirst (reset_where token (Date_now w)) s") (auto simp: findFirst_def)
  from reset_password_hit [OF this, of d newPass] have ?A
    unfolding reset_where_iff by blast
  with True show ?thesis by (subst if_P)
next
  case False
  then have "\<forall>u\<in>set (users s). \<not> reset_where token (Date_now w) u"
    by (simp add: reset_where_iff)
  then have ?B by (rule reset_password_miss)
  with False show ?thesis by (subst if_not_P)
qed

text \<open>
  The theorem at work: one millisecond before its expiry the token that Ann holds
  resets her password, one millisecond after it the token is refused and nothing changes.
\<close>

theorem reset_password_until_expiry_witness:
  "reset_password demo_deps (demo_env 899999 []) ''r1'' ''pw2'' \<lparr>users = [ann], next_id = 2\<rparr> =
     (reply 200 (Message ''Password reset successful''),
      \<lparr>users = [ann\<lparr>password := ''saltpw2'', resetToken := None, resetTokenExpiry := None\<rparr>],
       next_id = 2\<rparr>) \<and>
   reset_password demo_deps (demo_env 900001 []) ''r1'' ''pw2'' \<lparr>users = [ann], next_id = 2\<rparr> =
     (reply 400 (Error ''Invalid or expired token''), \<lparr>users = [ann], next_id = 2\<rparr>)"
proof -
  have "reset_password demo_deps (demo_env 899999 []) ''r1'' ''pw2'' \<lparr>users = [ann], next_id = 2\<rparr> =
     (reply 200 (Message ''Password reset successful''),
      \<lparr>users = [ann\<lparr>password := ''saltpw2'', resetToken := None, resetTokenExpiry := None\<rparr>],
       next_id = 2\<rparr>)"
    using reset_password_until_expiry
      [of "\<lparr>users = [ann], next_id = 2\<rparr>" "''r1''" "demo_env 899999 []" demo_deps "''pw2''"]
    by (simp add: ann_def demo_env_def demo_deps_def)
  moreover have "reset_password demo_deps (demo_env 900001 []) ''r1'' ''pw2''
      \<lparr>users = [ann], next_id = 2\<rparr> =
     (reply 400 (Error ''Invalid or expired token''), \<lparr>users = [ann], next_id = 2\<rparr>)"
    using reset_password_until_expiry
      [of "\<lparr>users = [ann], next_id = 2\<rparr>" "''r1''" "demo_env 900001 []" demo_deps "''pw2''"]
    by (simp add: ann_def demo_env_def)
  ultimately show ?thesis by (intro conjI)
qed

text \<open>
  C1 as stated asks for an expiry strictly later than the current time and says that a
  request at the very instant of the expiry fails. At that instant the code accepts the
  token: Ann's token expires at 900000, the request arrives at 900000, and the password
  is replaced.
\<close>

theorem reset_password_at_expiry_counterexample:
  "resetTokenExpiry ann = Some (Date_now (demo_env 900000 [])) \<and>
   reset_password demo_deps (demo_env 900000 []) ''r1'' ''pw2'' \<lparr>users = [ann], next_id = 2\<rparr> =
     (reply 200 (Message ''Password reset successful''),
      \<lparr>users = [ann\<lparr>password := ''saltpw2'', resetToken := None, resetTokenExpiry := None\<rparr>],
       next_id = 2\<rparr>)"
  by (simp add: reset_password_def findFirst_def reset_where_def update_user_def
      ann_def demo_env_def demo_deps_def)

section \<open>Verify email: a token works once\<close>

lemma verify_email_hit:
  assumes "distinct (map user_id (users s))"
    and "filter (\<lambda>v. verifyToken v = Some t) (users s) = [u]"
  shows "verify_email t s =
           (reply 200 (Message ''Email verified successfully! You can now log in.''),
            s\<lparr>users := map (\<lambda>v. if v = u then v\<lparr>isVerified := True, verifyToken := None\<rparr> else v)
                         (users s)\<rparr>)"
proof -
  have "u \<in> set (filter (\<lambda>v. verifyToken v = Some t) (users s))"
    by (simp add: assms(2))
  then have u: "u \<in> set (users s)" by simp
  have "findFirst (\<lambda>v. verifyToken v = Some t) s = Some u"
    by (simp add: findFirst_def find_filter_hd assms(2))
  then show ?thesis
    by (simp add: verify_email_def update_user_row [OF assms(1) u])
qed

lemma verify_email_miss:
  assumes "filter (\<lambda>v. verifyToken v = Some t) (users s) = []"
  shows "verify_email t s = (reply 400 (Error ''Invalid token''), s)"
  using assms by (simp add: verify_email_def findFirst_def find_filter_hd)

lemma verify_email_clears:
  "filter (\<lambda>v. verifyToken v = Some t)
     (map (\<lambda>v. if v = u then v\<lparr>isVerified := True, verifyToken := None\<rparr> else v) xs) =
   filter (\<lambda>v. verifyToken v = Some t \<and> v \<noteq> u) xs"
  by (induction xs) auto

text \<open>
  C2. With the primary key respected, a verify request with token \<open>t\<close>: when exactly one
  user \<open>u\<close> has that verify token, the response is 200 and the store afterwards differs
  only in \<open>u\<close>, who is verified and has no verify token; when no user has it, the
  response is 400 "Invalid token" and the store is unchanged. In both cases (at most
  one holder of the token, which is the case in every store reached by requests whose
  signups drew different tokens) a second verify request with the same token fails
  with "Invalid token" and changes nothing, so the token succeeds at most once.
\<close>

theorem verify_email_single_use:
  assumes "distinct (map user_id (users s))"
  shows "(filter (\<lambda>v. verifyToken v = Some t) (users s) = [u] \<longrightarrow>
            verify_email t s =
              (reply 200 (Message ''Email verified successfully! You can now log in.''),
               s\<lparr>users := map (\<lambda>v. if v = u then v\<lparr>isVerified := True, verifyToken := None\<rparr>
                                    else v) (users s)\<rparr>)) \<and>
         (filter (\<lambda>v. verifyToken v = Some t) (users s) = [] \<longrightarrow>
            verify_email t s = (reply 400 (Error ''Invalid token''), s)) \<and>
         (length (filter (\<lambda>v. verifyToken v = Some t) (users s)) \<le> 1 \<longrightarrow>
            verify_email t (snd (verify_email t s)) =
              (reply 400 (Error ''Invalid token''), snd (verify_email t s)))"
proof (intro conjI impI)
  assume "filter (\<lambda>v. verifyToken v = Some t) (users s) = [u]"
  then show "verify_email t s =
              (reply 200 (Message ''Email verified successfully! You can now log in.''),
               s\<lparr>users := map (\<lambda>v. if v = u then v\<lparr>isVerified := True, verifyToken := None\<rparr>
                                    else v) (users s)\<rparr>)"
    by (rule verify_email_hit [OF assms])
next
  assume "filter (\<lambda>v. verifyToken v = Some t) (users s) = []"
  then show "verify_email t s = (reply 400 (Error ''Invalid token''), s)"
    by (rule verify_email_miss)
next
  assume le: "length (filter (\<lambda>v. verifyToken v = Some t) (users s)) \<le> 1"
  show "verify_email t (snd (verify_email t s)) =
              (reply 400 (Error ''Invalid token''), snd (verify_email t s))"
  proof (cases "filter (\<lambda>v. verifyToken v = Some t) (users s)")
    case Nil
    then show ?thesis by (simp add: verify_email_miss)
  next
    case (Cons a rest)
    with le have one: "filter (\<lambda>v. verifyToken v = Some t) (users s) = [a]" by simp
    have "filter (\<lambda>v. verifyToken v = Some t \<and> v \<noteq> a) (users s) =
          filter (\<lambda>v. v \<noteq> a) (filter (\<lambda>v. verifyToken v = Some t) (users s))"
      by (simp add: conj_commute)
    also have "\<dots> = []" by (simp add: one)
    finally have "filter (\<lambda>v. verifyToken v = Some t)
        (users (snd (verify_email t s))) = []"
      by (simp add: verify_email_hit [OF assms one] verify_email_clears)
    then show ?thesis by (rule verify_email_miss)
  qed
qed


text \<open>Bob's token verifies him once; an unknown token and the second attempt are refused.\<close>

theorem verify_email_single_use_witness:
  "verify_email ''v1'' demo_store =
     (reply 200 (Message ''Email verified successfully! You can now log in.''),
      \<lparr>users = [ann, bob\<lparr>isVerified := True, verifyToken := None\<rparr>], next_id = 3\<rparr>) \<and>
   verify_email ''v0'' demo_store = (reply 400 (Error ''Invalid token''), demo_store) \<and>
   verify_email ''v1'' (snd (verify_email ''v1'' demo_store)) =
     (reply 400 (Error ''Invalid token''), snd (verify_email ''v1'' demo_store))"
proof -
  have ids: "distinct (map user_id (users demo_store))"
    by (simp add: demo_store_def ann_def bob_def)
  have one: "filter (\<lambda>v. verifyToken v = Some ''v1'') (users demo_store) = [bob]"
    by (simp add: demo_store_def ann_def bob_def)
  have none: "filter (\<lambda>v. verifyToken v = Some ''v0'') (users demo_store) = []"
    by (simp add: demo_store_def ann_def bob_def)
  note hit = verify_email_single_use [OF ids, of "''v1''" bob]
  note miss = verify_email_single_use [OF ids, of "''v0''" bob]
  have "verify_email ''v1'' demo_store =
      (reply 200 (Message ''Email verified successfully! You can now log in.''),
       demo_store\<lparr>users := map (\<lambda>v. if v = bob
          then v\<lparr>isVerified := True, verifyToken := None\<rparr> else v) (users demo_store)\<rparr>)"
    using hit one by blast
  also have "demo_store\<lparr>users := map (\<lambda>v. if v = bob
          then v\<lparr>isVerified := True, verifyToken := None\<rparr> else v) (users demo_store)\<rparr> =
      \<lparr>users = [ann, bob\<lparr>isVerified := True, verifyToken := None\<rparr>], next_id = 3\<rparr>"
    by (simp add: demo_store_def ann_def bob_def)
  finally have first: "verify_email ''v1'' demo_store =
     (reply 200 (Message ''Email verified successfully! You can now log in.''),
      \<lparr>users = [ann, bob\<lparr>isVerified := True, verifyToken := None\<rparr>], next_id = 3\<rparr>)" .
  have unknown: "verify_email ''v0'' demo_store = (reply 400 (Error ''Invalid token''), demo_store)"
    using miss none by blast
  have "length (filter (\<lambda>v. verifyToken v = Some ''v1'') (users demo_store)) \<le> 1"
    by (simp add: one)
  with hit have second: "verify_email ''v1'' (snd (verify_email ''v1'' demo_store)) =
     (reply 400 (Error ''Invalid token''), snd (verify_email ''v1'' demo_store))"
    by blast
  from first unknown second show ?thesis by (intro conjI)
qed

section \<open>Login\<close>

lemma findUnique_email_row:
  "distinct (map email (users s)) \<Longrightarrow> u \<in> set (users s) \<Longrightarrow>
   findUnique_email (email u) s = Some u"
  by (simp add: findUnique_email_def find_by_key)

lemma findUnique_email_none:
  "\<forall>u\<in>set (users s). email u \<noteq> em \<Longrightarrow> findUnique_email em s = None"
  by (simp add: findUnique_email_def find_None_set)

lemma login_store: "snd (login d w em pw s) = s"
  by (simp add: login_def split: option.splits sum.splits)

text \<open>
  C3. With the unique index on the email respected, a login request (em, pw): no user
  with that email gives 400 "User not found"; a user who is not verified gives 403
  whatever \<^verbatim>\<open>bcrypt.compare\<close> would answer (the result is the same for every
  comparison function, the comparison is not reached); a verified user whose password
  does not match gives 400 "Invalid credentials"; a verified user whose password matches
  gives, when the signing secret is set, 200 with the session token for that user's id,
  issued at the current second and expiring 3600 seconds later. The store is never
  changed.
\<close>

theorem login_outcomes:
  assumes "distinct (map email (users s))"
  shows "((\<forall>u\<in>set (users s). email u \<noteq> em) \<longrightarrow>
            login d w em pw s = (reply 400 (Error ''User not found''), s)) \<and>
         (\<forall>u\<in>set (users s). email u = em \<longrightarrow>
            (\<not> isVerified u \<longrightarrow>
               (\<forall>cmp. login (d\<lparr>bcrypt_compare := cmp\<rparr>) w em pw s =
                  (reply 403 (Error ''Please verify your email before logging in.''), s))) \<and>
            (isVerified u \<and> \<not> bcrypt_compare d pw (password u) \<longrightarrow>
               login d w em pw s = (reply 400 (Error ''Invalid credentials''), s)) \<and>
            (isVerified u \<and> bcrypt_compare d pw (password u) \<longrightarrow>
               (\<forall>k. JWT_SECRET d = Some k \<and> k \<noteq> [] \<longrightarrow>
                  login d w em pw s =
                    (reply 200 (Token (jwt_encode d k
                       \<lparr>jwt_id = user_id u, jwt_iat = Date_now w div 1000,
                        jwt_exp = Date_now w div 1000 + 3600\<rparr>)), s)))) \<and>
         snd (login d w em pw s) = s"
proof (intro conjI impI ballI allI)
  assume "\<forall>u\<in>set (users s). email u \<noteq> em"
  then show "login d w em pw s = (reply 400 (Error ''User not found''), s)"
    by (simp add: login_def findUnique_email_none)
next
  fix u cmp
  assume "u \<in> set (users s)" "email u = em" "\<not> isVerified u"
  then show "login (d\<lparr>bcrypt_compare := cmp\<rparr>) w em pw s =
      (reply 403 (Error ''Please verify your email before logging in.''), s)"
    using findUnique_email_row [OF assms, of u] by (simp add: login_def)
next
  fix u
  assume "u \<in> set (users s)" "email u = em" "isVerified u \<and> \<not> bcrypt_compare d pw (password u)"
  then show "login d w em pw s = (reply 400 (Error ''Invalid credentials''), s)"
    using findUnique_email_row [OF assms, of u] by (simp add: login_def)
next
  fix u k
  assume "u \<in> set (users s)" "email u = em" "isVerified u \<and> bcrypt_compare d pw (password u)"
    "JWT_SECRET d = Some k \<and> k \<noteq> []"
  then show "login d w em pw s =
      (reply 200 (Token (jwt_encode d k
         \<lparr>jwt_id = user_id u, jwt_iat = Date_now w div 1000,
          jwt_exp = Date_now w div 1000 + 3600\<rparr>)), s)"
    using findUnique_email_row [OF assms, of u] by (simp add: login_def jwt_sign_def)
next
  show "snd (login d w em pw s) = s" by (rule login_store)
qed

text \<open>The four outcomes on the demo store: unknown email, Bob unverified, Ann with a wrong and with the right password.\<close>

theorem login_outcomes_witness:
  "login demo_deps (demo_env 999 []) ''eve@x.com'' ''pw1'' demo_store =
     (reply 400 (Error ''User not found''), demo_store) \<and>
   login demo_deps (demo_env 999 []) ''bob@x.com'' ''pw9'' demo_store =
     (reply 403 (Error ''Please verify your email before logging in.''),
      demo_store) \<and>
   login demo_deps (demo_env 999 []) ''ann@x.com'' ''pw0'' demo_store =
     (reply 400 (Error ''Invalid credentials''), demo_store) \<and>
   login demo_deps (demo_env 999 []) ''ann@x.com'' ''pw1'' demo_store =
     (reply 200 (Token ''eyJ.demo.sig''), demo_store)"
  using
    login_outcomes [of "demo_store" "''eve@x.com''" demo_deps "demo_env 999 []" "''pw1''"]
    login_outcomes [of "demo_store" "''bob@x.com''" demo_deps "demo_env 999 []" "''pw9''"]
    login_outcomes [of "demo_store" "''ann@x.com''" demo_deps "demo_env 999 []" "''pw0''"]
    login_outcomes [of "demo_store" "''ann@x.com''" demo_deps "demo_env 999 []" "''pw1''"]
  by (simp add: demo_store_def ann_def bob_def demo_deps_def demo_env_def)

section \<open>Signup\<close>

lemma length_toString_hex: "length (toString_hex bs) = 2 * length bs"
  by (induction bs) (simp_all add: toString_hex_def hex_byte_def)

lemma findUnique_email_some:
  "\<exists>u\<in>set (users s). email u = em \<Longrightarrow> \<exists>u. findUnique_email em s = Some u"
  using find_None_set [of "\<lambda>u. email u = em" "users s"]
  by (cases "findUnique_email em s") (auto simp: findUnique_email_def)

lemma create_user_fresh:
  "\<forall>u\<in>set (users s). email u \<noteq> em \<Longrightarrow>
   create_user nm em pw vt s =
     Inr (s\<lparr>users := users s @
            [\<lparr>user_id = next_id s, name = nm, email = em, password = pw,
              isVerified = False, verifyToken = Some vt,
              resetToken = None, resetTokenExpiry = None\<rparr>],
          next_id := next_id s + 1\<rparr>)"
  by (simp add: create_user_def list_ex_iff)

text \<open>
  C5. A signup request (nm, em, pw): when some user already has exactly the email
  \<open>em\<close> (string equality, so letter case counts) the response is 400 "Email already
  registered" and the store is unchanged. When no user has it, one row is appended: the
  next id, the name and email as given, the password column holding the bcrypt hash of
  \<open>pw\<close> and nothing else of it, not verified, the verify token set to the hexadecimal
  form of the random bytes (64 characters for the 32 bytes drawn), no reset token. The
  response is the 200 message when the verification mail went out and the 500 of the
  mail failure otherwise; neither carries a session token.
\<close>

theorem signup_outcomes:
  "((\<exists>u\<in>set (users s). email u = em) \<longrightarrow>
      signup d w nm em pw s = (reply 400 (Error ''Email already registered''), s)) \<and>
   ((\<forall>u\<in>set (users s). email u \<noteq> em) \<longrightarrow>
      snd (signup d w nm em pw s) =
        s\<lparr>users := users s @
             [\<lparr>user_id = next_id s, name = nm, email = em,
               password = bcrypt_hash d (bcrypt_salt w) pw,
               isVerified = False, verifyToken = Some (toString_hex (randomBytes w)),
               resetToken = None, resetTokenExpiry = None\<rparr>],
           next_id := next_id s + 1\<rparr> \<and>
      fst (signup d w nm em pw s) =
        (if sendMail_ok w
         then reply 200 (Message
           ''Account created successfully! Please check your email to verify your account.'')
         else reply 500 (ErrorOf MailError)) \<and>
      (length (randomBytes w) = 32 \<longrightarrow> length (toString_hex (randomBytes w)) = 64))"
proof (intro conjI impI)
  assume "\<exists>u\<in>set (users s). email u = em"
  then obtain u where "findUnique_email em s = Some u"
    using findUnique_email_some by blast
  then show "signup d w nm em pw s = (reply 400 (Error ''Email already registered''), s)"
    by (simp add: signup_def)
next
  assume fresh: "\<forall>u\<in>set (users s). email u \<noteq> em"
  then show "snd (signup d w nm em pw s) =
        s\<lparr>users := users s @
             [\<lparr>user_id = next_id s, name = nm, email = em,
               password = bcrypt_hash d (bcrypt_salt w) pw,
               isVerified = False, verifyToken = Some (toString_hex (randomBytes w)),
               resetToken = None, resetTokenExpiry = None\<rparr>],
           next_id := next_id s + 1\<rparr>"
    by (simp add: signup_def Let_def findUnique_email_none create_user_fresh)
  from fresh show "fst (signup d w nm em pw s) =
        (if sendMail_ok w
         then reply 200 (Message
           ''Account created successfully! Please check your email to verify your account.'')
         else reply 500 (ErrorOf MailError))"
    by (simp add: signup_def Let_def findUnique_email_none create_user_fresh)
next
  assume "length (randomBytes w) = 32"
  then show "length (toString_hex (randomBytes w)) = 64"
    by (simp add: length_toString_hex)
qed

lemma demo_hex: "toString_hex demo_bytes =
   ''00010a107f80abff00010a107f80abff00010a107f80abff00010a107f80abff''"
  by (simp add: toString_hex_def hex_byte_def hex_digit_def demo_bytes_def)

text \<open>
  On the demo store Ann's address is taken, while the same address with a capital
  letter is fresh and creates user 3.
\<close>

theorem signup_outcomes_witness:
  "signup demo_deps (demo_env 5 demo_bytes) ''Ann 2'' ''ann@x.com'' ''pw3'' demo_store =
     (reply 400 (Error ''Email already registered''), demo_store) \<and>
   signup demo_deps (demo_env 5 demo_bytes) ''Ann 2'' ''Ann@x.com'' ''pw3'' demo_store =
     (reply 200 (Message
        ''Account created successfully! Please check your email to verify your account.''),
      \<lparr>users = [ann, bob,
         \<lparr>user_id = 3, name = ''Ann 2'', email = ''Ann@x.com'', password = ''saltpw3'',
          isVerified = False,
          verifyToken = Some ''00010a107f80abff00010a107f80abff00010a107f80abff00010a107f80abff'',
          resetToken = None, resetTokenExpiry = None\<rparr>], next_id = 4\<rparr>)"
proof -
  have taken: "\<exists>u\<in>set (users demo_store). email u = ''ann@x.com''"
    by (simp add: demo_store_def ann_def)
  have fresh: "\<forall>u\<in>set (users demo_store). email u \<noteq> ''Ann@x.com''"
    by (simp add: demo_store_def ann_def bob_def)
  have first: "signup demo_deps (demo_env 5 demo_bytes) ''Ann 2'' ''ann@x.com'' ''pw3'' demo_store =
     (reply 400 (Error ''Email already registered''), demo_store)"
    using signup_outcomes [of demo_store "''ann@x.com''" demo_deps "demo_env 5 demo_bytes" "''Ann 2''" "''pw3''"]
      taken by blast
  have "snd (signup demo_deps (demo_env 5 demo_bytes) ''Ann 2'' ''Ann@x.com'' ''pw3'' demo_store) =
      \<lparr>users = [ann, bob,
         \<lparr>user_id = 3, name = ''Ann 2'', email = ''Ann@x.com'', password = ''saltpw3'',
          isVerified = False,
          verifyToken = Some ''00010a107f80abff00010a107f80abff00010a107f80abff00010a107f80abff'',
          resetToken = None, resetTokenExpiry = None\<rparr>], next_id = 4\<rparr>"
    and "fst (signup demo_deps (demo_env 5 demo_bytes) ''Ann 2'' ''Ann@x.com'' ''pw3'' demo_store) =
      reply 200 (Message
        ''Account created successfully! Please check your email to verify your account.'')"
    using signup_outcomes [of demo_store "''Ann@x.com''" demo_deps "demo_env 5 demo_bytes" "''Ann 2''" "''pw3''"]
      fresh
    by (simp_all add: demo_store_def demo_env_def demo_deps_def demo_hex)
  with first show ?thesis
    by (simp add: prod_eq_iff)
qed

section \<open>The Auth Guard: 401, 403 or the handler\<close>

lemma js_split_no_sep: "c \<notin> set t \<Longrightarrow> js_split c t = [t]"
  by (induction t) auto

lemma js_split_first: "c \<notin> set a \<Longrightarrow> js_split c (a @ c # t) = a # js_split c t"
  by (induction a) auto

lemma bearer_token_second_field:
  assumes "CHR '' '' \<notin> set scheme" and "CHR '' '' \<notin> set t"
  shows "bearer_token (Some (scheme @ '' '' @ t)) = Some t"
proof -
  have "js_split (CHR '' '') (scheme @ CHR '' '' # t) = scheme # js_split (CHR '' '') t"
    using assms(1) by (rule js_split_first)
  then show ?thesis
    using assms(2) by (simp add: bearer_token_def at_index_def js_split_no_sep)
qed

lemma bearer_token_standard:
  assumes "CHR '' '' \<notin> set t"
  shows "bearer_token (Some (''Bearer '' @ t)) = Some t"
  using bearer_token_second_field [of "''Bearer''" t] assms by simp

lemma authenticateToken_absent:
  "falsy (bearer_token hdr) \<Longrightarrow>
   authenticateToken d w hdr =
     Inl (reply 401 (Error (''Token n'' @ [CHR 0xC3, CHR 0xA3] @ ''o fornecido'')))"
  by (simp add: authenticateToken_def)

lemma authenticateToken_present:
  "bearer_token hdr = Some tok \<Longrightarrow> tok \<noteq> [] \<Longrightarrow>
   authenticateToken d w hdr =
     (case jwt_verify d tok (JWT_SECRET d) (Date_now w) of
        Inl err \<Rightarrow> Inl (reply 403
          (Error (''Token inv'' @ [CHR 0xC3, CHR 0xA1] @ ''lido ou expirado'')))
      | Inr payload \<Rightarrow> Inr payload)"
  by (simp add: authenticateToken_def falsy_def)

text \<open>
  C4. A request to a protected route, with the token the guard reads from the
  Authorization header (its second space-separated field). When there is none (no
  header, no second field, or an empty one) the guard answers 401 and the result does
  not depend on the handler: it is not run. When there is one and verification fails
  (the token does not decode under the server's secret, because it is malformed or
  its signature is wrong, or its expiry has been reached) the guard
  answers 403, again without the handler. When the token decodes and has not expired,
  the result is the handler's, run on the decoded claims, which carry the user id.
  For a header of the standard form \<^verbatim>\<open>Bearer <token>\<close> the token read is the one sent;
  the guard does not look at the first word, so the same holds with any other word in
  the place of \<^verbatim>\<open>Bearer\<close>.
\<close>

theorem auth_guard_outcomes:
  "(falsy (bearer_token hdr) \<longrightarrow>
      protected d w hdr h =
        Inl (reply 401 (Error (''Token n'' @ [CHR 0xC3, CHR 0xA3] @ ''o fornecido'')))) \<and>
   (\<forall>tok. bearer_token hdr = Some tok \<and> tok \<noteq> [] \<longrightarrow>
      ((jwt_decode d (JWT_SECRET d) tok = None \<or>
        (\<exists>c. jwt_decode d (JWT_SECRET d) tok = Some c \<and> jwt_exp c \<le> Date_now w div 1000)) \<longrightarrow>
       protected d w hdr h =
         Inl (reply 403 (Error (''Token inv'' @ [CHR 0xC3, CHR 0xA1] @ ''lido ou expirado'')))) \<and>
      (\<forall>c. jwt_decode d (JWT_SECRET d) tok = Some c \<and> Date_now w div 1000 < jwt_exp c \<longrightarrow>
         protected d w hdr h = Inr (h c))) \<and>
   bearer_token None = None \<and>
   bearer_token (Some ''Bearer'') = None \<and>
   bearer_token (Some ''Bearer '') = Some [] \<and>
   (\<forall>t. CHR '' '' \<notin> set t \<longrightarrow> bearer_token (Some (''Bearer '' @ t)) = Some t) \<and>
   (\<forall>scheme t. CHR '' '' \<notin> set scheme \<and> CHR '' '' \<notin> set t \<longrightarrow>
      bearer_token (Some (scheme @ '' '' @ t)) = Some t)"
proof (intro conjI impI allI)
  assume "falsy (bearer_token hdr)"
  then show "protected d w hdr h =
        Inl (reply 401 (Error (''Token n'' @ [CHR 0xC3, CHR 0xA3] @ ''o fornecido'')))"
    by (simp add: protected_def authenticateToken_absent)
next
  fix tok
  assume tok: "bearer_token hdr = Some tok \<and> tok \<noteq> []"
    and bad: "jwt_decode d (JWT_SECRET d) tok = None \<or>
        (\<exists>c. jwt_decode d (JWT_SECRET d) tok = Some c \<and> jwt_exp c \<le> Date_now w div 1000)"
  from bad have "\<exists>e. jwt_verify d tok (JWT_SECRET d) (Date_now w) = Inl e"
    by (auto simp: jwt_verify_def)
  with tok show "protected d w hdr h =
         Inl (reply 403 (Error (''Token inv'' @ [CHR 0xC3, CHR 0xA1] @ ''lido ou expirado'')))"
    by (auto simp: protected_def authenticateToken_present)
next
  fix tok c
  assume tok: "bearer_token hdr = Some tok \<and> tok \<noteq> []"
    and ok: "jwt_decode d (JWT_SECRET d) tok = Some c \<and> Date_now w div 1000 < jwt_exp c"
  from ok have "jwt_verify d tok (JWT_SECRET d) (Date_now w) = Inr c"
    by (simp add: jwt_verify_def)
  with tok show "protected d w hdr h = Inr (h c)"
    by (simp add: protected_def authenticateToken_present)
next
  show "bearer_token None = None" by (simp add: bearer_token_def)
  show "bearer_token (Some ''Bearer'') = None" by (simp add: bearer_token_def at_index_def)
  show "bearer_token (Some ''Bearer '') = Some []" by (simp add: bearer_token_def at_index_def)
next
  fix t :: string
  assume "CHR '' '' \<notin> set t"
  then show "bearer_token (Some (''Bearer '' @ t)) = Some t" by (rule bearer_token_standard)
next
  fix scheme t :: string
  assume "CHR '' '' \<notin> set scheme \<and> CHR '' '' \<notin> set t"
  then have "CHR '' '' \<notin> set scheme" and "CHR '' '' \<notin> set t" by simp_all
  then show "bearer_token (Some (scheme @ '' '' @ t)) = Some t"
    by (rule bearer_token_second_field)
qed

text \<open>
  No header, a forged token, the demo token at its expiry, and the demo token one
  millisecond earlier, with a handler that returns the user id.
\<close>

theorem auth_guard_outcomes_witness:
  "protected demo_deps (demo_env 3599999 []) None jwt_id =
     Inl (reply 401 (Error (''Token n'' @ [CHR 0xC3, CHR 0xA3] @ ''o fornecido''))) \<and>
   protected demo_deps (demo_env 3599999 []) (Some ''Bearer eyJ.forged.sig'') jwt_id =
     Inl (reply 403 (Error (''Token inv'' @ [CHR 0xC3, CHR 0xA1] @ ''lido ou expirado''))) \<and>
   protected demo_deps (demo_env 3600000 []) (Some ''Bearer eyJ.demo.sig'') jwt_id =
     Inl (reply 403 (Error (''Token inv'' @ [CHR 0xC3, CHR 0xA1] @ ''lido ou expirado''))) \<and>
   protected demo_deps (demo_env 3599999 []) (Some ''Bearer eyJ.demo.sig'') jwt_id = Inr 1"
proof -
  have none: "falsy (bearer_token None)"
    by (simp add: falsy_def bearer_token_def)
  have forged: "bearer_token (Some ''Bearer eyJ.forged.sig'') = Some ''eyJ.forged.sig''"
    and demo: "bearer_token (Some ''Bearer eyJ.demo.sig'') = Some ''eyJ.demo.sig''"
    by (simp_all add: bearer_token_def at_index_def)
  have "protected demo_deps (demo_env 3599999 []) None jwt_id =
     Inl (reply 401 (Error (''Token n'' @ [CHR 0xC3, CHR 0xA3] @ ''o fornecido'')))"
    using auth_guard_outcomes [of None demo_deps "demo_env 3599999 []" jwt_id] none by blast
  moreover have "protected demo_deps (demo_env 3599999 []) (Some ''Bearer eyJ.forged.sig'') jwt_id =
     Inl (reply 403 (Error (''Token inv'' @ [CHR 0xC3, CHR 0xA1] @ ''lido ou expirado'')))"
    using auth_guard_outcomes [of "Some ''Bearer eyJ.forged.sig''" demo_deps "demo_env 3599999 []" jwt_id]
      forged by (simp add: demo_deps_def)
  moreover have "protected demo_deps (demo_env 3600000 []) (Some ''Bearer eyJ.demo.sig'') jwt_id =
     Inl (reply 403 (Error (''Token inv'' @ [CHR 0xC3, CHR 0xA1] @ ''lido ou expirado'')))"
    using auth_guard_outcomes [of "Some ''Bearer eyJ.demo.sig''" demo_deps "demo_env 3600000 []" jwt_id]
      demo by (simp add: demo_deps_def demo_env_def)
  moreover have "protected demo_deps (demo_env 3599999 []) (Some ''Bearer eyJ.demo.sig'') jwt_id = Inr 1"
    using auth_guard_outcomes [of "Some ''Bearer eyJ.demo.sig''" demo_deps "demo_env 3599999 []" jwt_id]
      demo by (simp add: demo_deps_def demo_env_def)
  ultimately show ?thesis by (intro conjI)
qed


section \<open>Change of password\<close>

lemma put_account_password_authenticated:
  "authenticateToken d w hdr = Inr p \<Longrightarrow>
   put_account_password d w hdr current newPass s = account_password d w p current newPass s"
  by (simp add: put_account_password_def protected_def)

text \<open>
  C9. A password-change request that passed the guard with claims \<open>p\<close>, where \<open>u\<close> is
  the row whose id the claims carry (primary key respected): when \<open>current\<close> does not
  match \<open>u\<close>'s stored hash the response is 401 and the store is unchanged; when it
  matches the response is 200 and the store afterwards is the old one with \<open>u\<close>
  replaced by \<open>u\<close> with the password set to the hash of \<open>newPass\<close>: every other column
  of \<open>u\<close> and every other row are as before.
\<close>

theorem account_password_frame:
  assumes "distinct (map user_id (users s))"
    and "authenticateToken d w hdr = Inr p"
    and "u \<in> set (users s)" and "user_id u = jwt_id p"
  shows "put_account_password d w hdr current newPass s =
     (if bcrypt_compare d current (password u)
      then (reply 200 (Message ''Senha alterada com sucesso''),
            s\<lparr>users := map (\<lambda>v. if v = u
                                 then u\<lparr>password := bcrypt_hash d (bcrypt_salt w) newPass\<rparr>
                                 else v) (users s)\<rparr>)
      else (reply 401 (Error ''Senha atual incorreta''), s))"
proof -
  have found: "findUnique_id (jwt_id p) s = Some u"
    using findUnique_id_row [OF assms(1,3)] assms(4) by simp
  have upd: "update_user (jwt_id p) f s =
      Inr (s\<lparr>users := map (\<lambda>v. if v = u then f v else v) (users s)\<rparr>)" for f
    using update_user_row [OF assms(1,3), of f] assms(4) by simp
  have "map (\<lambda>v. if v = u then v\<lparr>password := x\<rparr> else v) (users s) =
        map (\<lambda>v. if v = u then u\<lparr>password := x\<rparr> else v) (users s)" for x
    by (intro map_cong refl) simp
  then show ?thesis
    by (simp add: put_account_password_authenticated [OF assms(2)] account_password_def
        found upd Let_def)
qed

text \<open>Ann, authenticated by the demo token, with a wrong and with the right current password.\<close>

theorem account_password_frame_witness:
  "put_account_password demo_deps (demo_env 5000 []) (Some ''Bearer eyJ.demo.sig'')
      ''pw0'' ''pw2'' demo_store =
     (reply 401 (Error ''Senha atual incorreta''), demo_store) \<and>
   put_account_password demo_deps (demo_env 5000 []) (Some ''Bearer eyJ.demo.sig'')
      ''pw1'' ''pw2'' demo_store =
     (reply 200 (Message ''Senha alterada com sucesso''),
      \<lparr>users = [ann\<lparr>password := ''saltpw2''\<rparr>, bob], next_id = 3\<rparr>)"
proof -
  have ids: "distinct (map user_id (users demo_store))"
    by (simp add: demo_store_def ann_def bob_def)
  have auth: "authenticateToken demo_deps (demo_env 5000 []) (Some ''Bearer eyJ.demo.sig'') =
      Inr \<lparr>jwt_id = 1, jwt_iat = 0, jwt_exp = 3600\<rparr>"
    by (simp add: authenticateToken_def bearer_token_def at_index_def falsy_def jwt_verify_def
        demo_deps_def demo_env_def)
  have mem: "ann \<in> set (users demo_store)"
    by (simp add: demo_store_def)
  have id: "user_id ann = jwt_id \<lparr>jwt_id = 1, jwt_iat = 0, jwt_exp = 3600\<rparr>"
    by (simp add: ann_def)
  note frame = account_password_frame [OF ids auth mem id]
  have "put_account_password demo_deps (demo_env 5000 []) (Some ''Bearer eyJ.demo.sig'')
      ''pw0'' ''pw2'' demo_store = (reply 401 (Error ''Senha atual incorreta''), demo_store)"
    using frame [of "''pw0''" "''pw2''"] by (simp add: demo_deps_def ann_def)
  moreover have "put_account_password demo_deps (demo_env 5000 []) (Some ''Bearer eyJ.demo.sig'')
      ''pw1'' ''pw2'' demo_store =
     (reply 200 (Message ''Senha alterada com sucesso''),
      \<lparr>users = [ann\<lparr>password := ''saltpw2''\<rparr>, bob], next_id = 3\<rparr>)"
    using frame [of "''pw1''" "''pw2''"]
    by (simp add: demo_deps_def demo_env_def demo_store_def ann_def bob_def)
  ultimately show ?thesis by (intro conjI)
qed

text \<open>
  C10. When the guard accepts a token whose user id belongs to no row of the store, the
  password-change handler dereferences the null lookup result; the TypeError is caught
  and answered with 500 (not 401, not 200), and the store is unchanged.
\<close>

theorem account_password_missing_user:
  assumes "authenticateToken d w hdr = Inr p"
    and "\<forall>u\<in>set (users s). user_id u \<noteq> jwt_id p"
  shows "put_account_password d w hdr current newPass s = (reply 500 (ErrorOf TypeError), s)"
proof -
  from assms(2) have "findUnique_id (jwt_id p) s = None"
    by (simp add: findUnique_id_def find_None_set)
  then show ?thesis
    by (simp add: put_account_password_authenticated [OF assms(1)] account_password_def)
qed

text \<open>The demo token names user 1; in a store that holds only Bob the request ends in 500.\<close>

theorem account_password_missing_user_witness:
  "put_account_password demo_deps (demo_env 5000 []) (Some ''Bearer eyJ.demo.sig'')
      ''pw1'' ''pw2'' \<lparr>users = [bob], next_id = 3\<rparr> =
     (reply 500 (ErrorOf TypeError), \<lparr>users = [bob], next_id = 3\<rparr>)"
proof -
  have auth: "authenticateToken demo_deps (demo_env 5000 []) (Some ''Bearer eyJ.demo.sig'') =
      Inr \<lparr>jwt_id = 1, jwt_iat = 0, jwt_exp = 3600\<rparr>"
    by (simp add: authenticateToken_def bearer_token_def at_index_def falsy_def jwt_verify_def
        demo_deps_def demo_env_def)
  have gone: "\<forall>u\<in>set (users \<lparr>users = [bob], next_id = 3\<rparr>).
      user_id u \<noteq> jwt_id \<lparr>jwt_id = 1, jwt_iat = 0, jwt_exp = 3600\<rparr>"
    by (simp add: bob_def)
  show ?thesis
    by (rule account_password_missing_user [OF auth gone])
qed

section \<open>Lifetime of a session token\<close>

text \<open>
  C6, as the code has it. A successful login at time \<open>Date_now w\<close> (milliseconds)
  returns the token that encodes the user's id, \<open>iat\<close> the current whole second and
  \<open>exp\<close> 3600 seconds later. Provided the token library decodes what it encoded and its
  tokens are non-empty and free of spaces, the guard, handed \<^verbatim>\<open>Bearer <token>\<close> at time
  \<open>Date_now w'\<close>, accepts exactly while the whole second of \<open>w'\<close> is below the whole
  second of issue plus 3600. So it accepts at every time up to one second before issue
  plus one hour, and rejects with 403 at every time from issue plus one hour on; in the
  second in between the answer depends on the milliseconds of the time of issue.
\<close>

theorem session_token_lifetime:
  assumes "distinct (map email (users s))" and "u \<in> set (users s)"
    and "isVerified u" and "bcrypt_compare d pw (password u)"
    and "JWT_SECRET d = Some k" and "k \<noteq> []"
    and "c = \<lparr>jwt_id = user_id u, jwt_iat = Date_now w div 1000,
              jwt_exp = Date_now w div 1000 + 3600\<rparr>"
    and "tok = jwt_encode d k c"
    and "jwt_decode d (Some k) tok = Some c" and "tok \<noteq> []" and "CHR '' '' \<notin> set tok"
  shows "login d w (email u) pw s = (reply 200 (Token tok), s) \<and>
         authenticateToken d w' (Some (''Bearer '' @ tok)) =
           (if Date_now w' div 1000 < Date_now w div 1000 + 3600 then Inr c
            else Inl (reply 403
              (Error (''Token inv'' @ [CHR 0xC3, CHR 0xA1] @ ''lido ou expirado'')))) \<and>
         (Date_now w' + 1000 \<le> Date_now w + 3600000 \<longrightarrow>
            authenticateToken d w' (Some (''Bearer '' @ tok)) = Inr c) \<and>
         (Date_now w + 3600000 \<le> Date_now w' \<longrightarrow>
            authenticateToken d w' (Some (''Bearer '' @ tok)) =
              Inl (reply 403
                (Error (''Token inv'' @ [CHR 0xC3, CHR 0xA1] @ ''lido ou expirado''))))"
proof -
  have issued: "login d w (email u) pw s = (reply 200 (Token tok), s)"
    using assms(3-8) findUnique_email_row [OF assms(1,2)]
    by (simp add: login_def jwt_sign_def)
  have guard: "authenticateToken d w' (Some (''Bearer '' @ tok)) =
           (if Date_now w' div 1000 < Date_now w div 1000 + 3600 then Inr c
            else Inl (reply 403
              (Error (''Token inv'' @ [CHR 0xC3, CHR 0xA1] @ ''lido ou expirado''))))"
    using authenticateToken_present [OF bearer_token_standard [OF assms(11)] assms(10), of d w']
      assms(5,6,7,9)
    by (simp add: jwt_verify_def)
  have early: "Date_now w' div 1000 < Date_now w div 1000 + 3600"
    if "Date_now w' + 1000 \<le> Date_now w + 3600000"
    using that by linarith
  have late: "\<not> Date_now w' div 1000 < Date_now w div 1000 + 3600"
    if "Date_now w + 3600000 \<le> Date_now w'"
    using that by linarith
  from issued guard early late show ?thesis
    by simp
qed


text \<open>Ann logs in at 999 ms; the token is accepted 59 minutes later and refused 61 minutes later.\<close>

theorem session_token_lifetime_witness:
  "login demo_deps (demo_env 999 []) ''ann@x.com'' ''pw1'' demo_store =
     (reply 200 (Token ''eyJ.demo.sig''), demo_store) \<and>
   authenticateToken demo_deps (demo_env 3540999 []) (Some ''Bearer eyJ.demo.sig'') =
     Inr \<lparr>jwt_id = 1, jwt_iat = 0, jwt_exp = 3600\<rparr> \<and>
   authenticateToken demo_deps (demo_env 3660999 []) (Some ''Bearer eyJ.demo.sig'') =
     Inl (reply 403 (Error (''Token inv'' @ [CHR 0xC3, CHR 0xA1] @ ''lido ou expirado'')))"
proof -
  have emails: "distinct (map email (users demo_store))"
    and mem: "ann \<in> set (users demo_store)"
    and verified: "isVerified ann"
    and match: "bcrypt_compare demo_deps ''pw1'' (password ann)"
    and secret: "JWT_SECRET demo_deps = Some ''s3cret''" "''s3cret'' \<noteq> []"
    by (simp_all add: demo_store_def demo_deps_def ann_def bob_def)
  have c: "\<lparr>jwt_id = 1, jwt_iat = 0, jwt_exp = 3600\<rparr> =
      \<lparr>jwt_id = user_id ann, jwt_iat = Date_now (demo_env 999 []) div 1000,
       jwt_exp = Date_now (demo_env 999 []) div 1000 + 3600\<rparr>"
    by (simp add: ann_def demo_env_def)
  have tok: "''eyJ.demo.sig'' =
      jwt_encode demo_deps ''s3cret'' \<lparr>jwt_id = 1, jwt_iat = 0, jwt_exp = 3600\<rparr>"
    and decoded: "jwt_decode demo_deps (Some ''s3cret'') ''eyJ.demo.sig'' =
      Some \<lparr>jwt_id = 1, jwt_iat = 0, jwt_exp = 3600\<rparr>"
    and shape: "''eyJ.demo.sig'' \<noteq> []" "CHR '' '' \<notin> set ''eyJ.demo.sig''"
    by (simp_all add: demo_deps_def)
  note life = session_token_lifetime [OF emails mem verified match secret c tok decoded shape]
  have "login demo_deps (demo_env 999 []) ''ann@x.com'' ''pw1'' demo_store =
     (reply 200 (Token ''eyJ.demo.sig''), demo_store)"
    using life [of "demo_env 0 []"] by (simp add: ann_def)
  moreover have "authenticateToken demo_deps (demo_env 3540999 []) (Some ''Bearer eyJ.demo.sig'') =
     Inr \<lparr>jwt_id = 1, jwt_iat = 0, jwt_exp = 3600\<rparr>"
    using life [of "demo_env 3540999 []"] by (simp add: demo_env_def)
  moreover have "authenticateToken demo_deps (demo_env 3660999 []) (Some ''Bearer eyJ.demo.sig'') =
     Inl (reply 403 (Error (''Token inv'' @ [CHR 0xC3, CHR 0xA1] @ ''lido ou expirado'')))"
    using life [of "demo_env 3660999 []"] by (simp add: demo_env_def)
  ultimately show ?thesis by (intro conjI)
qed

text \<open>
  C6 as stated has the guard accept at every time strictly before issue plus one
  hour. The token Ann gets at 999 ms carries \<open>exp = 3600\<close>; at 3600998 ms, still before
  999 + 3600000, the clock reads second 3600 and the guard answers 403.
\<close>

theorem session_token_last_second_counterexample:
  "login demo_deps (demo_env 999 []) ''ann@x.com'' ''pw1'' demo_store =
     (reply 200 (Token ''eyJ.demo.sig''), demo_store) \<and>
   jwt_decode demo_deps (JWT_SECRET demo_deps) ''eyJ.demo.sig'' =
     Some \<lparr>jwt_id = user_id ann, jwt_iat = 999 div 1000, jwt_exp = 999 div 1000 + 3600\<rparr> \<and>
   (3600998 :: nat) < 999 + 3600000 \<and>
   authenticateToken demo_deps (demo_env 3600998 []) (Some ''Bearer eyJ.demo.sig'') =
     Inl (reply 403 (Error (''Token inv'' @ [CHR 0xC3, CHR 0xA1] @ ''lido ou expirado'')))"
  by (simp add: login_def findUnique_email_def jwt_sign_def authenticateToken_def
      bearer_token_def at_index_def falsy_def jwt_verify_def
      demo_store_def demo_deps_def demo_env_def ann_def bob_def)


section \<open>Verified or holding a verify token\<close>

lemma verification_ok_update:
  assumes "verification_ok s" and "update_user i f s = Inr s'"
    and "\<And>r. (verifyToken r = None \<longrightarrow> isVerified r) \<Longrightarrow>
              (verifyToken (f r) = None \<longrightarrow> isVerified (f r))"
  shows "verification_ok s'"
  using assms by (auto simp: verification_ok_def update_user_def list_all_iff split: if_splits)

lemma verification_ok_create:
  assumes "verification_ok s" and "create_user nm em pw vt s = Inr s'"
  shows "verification_ok s'"
  using assms by (auto simp: verification_ok_def create_user_def list_all_iff split: if_splits)

lemma verification_ok_signup: "verification_ok s \<Longrightarrow> verification_ok (snd (signup d w nm em pw s))"
  by (auto simp: signup_def Let_def split: option.splits sum.splits dest: verification_ok_create)

lemma verification_ok_verify_email: "verification_ok s \<Longrightarrow> verification_ok (snd (verify_email t s))"
  by (auto simp: verify_email_def split: option.splits sum.splits
      elim!: verification_ok_update)

lemma verification_ok_account_password:
  "verification_ok s \<Longrightarrow> verification_ok (snd (put_account_password d w hdr cur new s))"
  by (auto simp: put_account_password_def protected_def account_password_def Let_def
      split: option.splits sum.splits elim!: verification_ok_update)

lemma verification_ok_forgot_password:
  "verification_ok s \<Longrightarrow> verification_ok (snd (forgot_password d w em s))"
  by (auto simp: forgot_password_def Let_def split: option.splits sum.splits
      elim!: verification_ok_update)

lemma verification_ok_reset_password:
  "verification_ok s \<Longrightarrow> verification_ok (snd (reset_password d w t new s))"
  by (auto simp: reset_password_def Let_def split: option.splits sum.splits
      elim!: verification_ok_update)

lemma verification_ok_handle: "verification_ok s \<Longrightarrow> verification_ok (snd (handle d w req s))"
  by (cases req)
    (simp_all add: verification_ok_signup verification_ok_verify_email login_store
      verification_ok_account_password verification_ok_forgot_password
      verification_ok_reset_password)

lemma verification_ok_run: "verification_ok s \<Longrightarrow> verification_ok (run d evs s)"
  by (induction evs arbitrary: s) (auto simp: verification_ok_handle)

text \<open>
  C7. After any sequence of signup, verify, login, password-change, forgot-password and
  reset-password requests, whatever the clock, the random bytes, the salts and the
  mail relay do, starting from the empty store, every user satisfies exactly one of:
  the verify token is present; or the user is verified and the verify token is null.
\<close>

theorem verification_invariant:
  "\<forall>u\<in>set (users (run d evs empty_store)).
     (verifyToken u \<noteq> None) \<noteq> (isVerified u \<and> verifyToken u = None)"
proof -
  have "verification_ok empty_store"
    by (simp add: verification_ok_def empty_store_def)
  then have "verification_ok (run d evs empty_store)"
    by (rule verification_ok_run)
  then show ?thesis
    by (auto simp: verification_ok_def list_all_iff)
qed


lemma carol_run:
  "users (run demo_deps carol_requests empty_store) =
     [\<lparr>user_id = 1, name = ''Carol'', email = ''carol@x.com'', password = ''saltpw5'',
       isVerified = True, verifyToken = None, resetToken = None, resetTokenExpiry = None\<rparr>]"
  by (simp add: carol_requests_def empty_store_def signup_def verify_email_def
      findUnique_email_def findFirst_def create_user_def update_user_def Let_def
      demo_env_def demo_deps_def demo_hex)

text \<open>Carol signs up and verifies; she ends verified with no verify token.\<close>

theorem verification_invariant_witness:
  "users (run demo_deps carol_requests empty_store) =
     [\<lparr>user_id = 1, name = ''Carol'', email = ''carol@x.com'', password = ''saltpw5'',
       isVerified = True, verifyToken = None, resetToken = None, resetTokenExpiry = None\<rparr>] \<and>
   (verifyToken (hd (users (run demo_deps carol_requests empty_store))) \<noteq> None) \<noteq>
   (isVerified (hd (users (run demo_deps carol_requests empty_store))) \<and>
    verifyToken (hd (users (run demo_deps carol_requests empty_store))) = None)"
proof -
  have "hd (users (run demo_deps carol_requests empty_store))
      \<in> set (users (run demo_deps carol_requests empty_store))"
    by (simp add: carol_run)
  with verification_invariant [of demo_deps carol_requests] carol_run
  show ?thesis by blast
qed

section \<open>The table constraints hold in every reachable store\<close>

text \<open>
  Several theorems assume of a store what the table declares: distinct ids, distinct
  emails. Every route preserves these constraints, so they hold after any sequence of
  requests.
\<close>

lemma update_user_keys:
  assumes "update_user i f s = Inr s'" and "\<And>r. g (f r) = g r"
  shows "map g (users s') = map g (users s)" and "next_id s' = next_id s"
  using assms by (auto simp: update_user_def split: if_splits)

lemma wf_store_update:
  assumes "wf_store s" and "update_user i f s = Inr s'"
    and "\<And>r. user_id (f r) = user_id r" and "\<And>r. email (f r) = email r"
  shows "wf_store s'"
proof -
  have ids: "map user_id (users s') = map user_id (users s)"
    and emails: "map email (users s') = map email (users s)"
    and seq: "next_id s' = next_id s"
    using update_user_keys [OF assms(2), of user_id] update_user_keys [OF assms(2), of email]
      assms(3,4) by simp_all
  have bound: "\<forall>u\<in>set (users s). user_id u < next_id s"
    using assms(1) by (simp add: wf_store_def list_all_iff)
  have "\<forall>u\<in>set (users s'). user_id u < next_id s"
  proof
    fix u
    assume "u \<in> set (users s')"
    then have "user_id u \<in> set (map user_id (users s'))" by simp
    then have "user_id u \<in> set (map user_id (users s))" by (simp only: ids)
    then obtain v where "v \<in> set (users s)" and "user_id v = user_id u" by auto
    with bound show "user_id u < next_id s" by force
  qed
  with ids emails seq assms(1) show ?thesis
    by (simp add: wf_store_def list_all_iff)
qed

lemma wf_store_create:
  assumes "wf_store s" and "create_user nm em pw vt s = Inr s'"
  shows "wf_store s'"
proof -
  from assms(2) have fresh: "\<forall>u\<in>set (users s). email u \<noteq> em"
    and s': "s' = s\<lparr>users := users s @
                  [\<lparr>user_id = next_id s, name = nm, email = em, password = pw,
                    isVerified = False, verifyToken = Some vt,
                    resetToken = None, resetTokenExpiry = None\<rparr>],
                next_id := next_id s + 1\<rparr>"
    by (auto simp: create_user_def list_ex_iff split: if_splits)
  from assms(1) have bound: "\<forall>u\<in>set (users s). user_id u < next_id s"
    by (simp add: wf_store_def list_all_iff)
  then have "next_id s \<notin> user_id ` set (users s)"
    by auto
  moreover from fresh have "em \<notin> email ` set (users s)"
    by auto
  moreover from bound have "\<forall>u\<in>set (users s). user_id u < Suc (next_id s)"
    by (simp add: less_SucI)
  ultimately show ?thesis
    using assms(1) by (simp add: wf_store_def list_all_iff s')
qed

lemma wf_store_signup: "wf_store s \<Longrightarrow> wf_store (snd (signup d w nm em pw s))"
  by (auto simp: signup_def Let_def split: option.splits sum.splits dest: wf_store_create)

lemma wf_store_verify_email: "wf_store s \<Longrightarrow> wf_store (snd (verify_email t s))"
  by (auto simp: verify_email_def split: option.splits sum.splits elim!: wf_store_update)

lemma wf_store_account_password:
  "wf_store s \<Longrightarrow> wf_store (snd (put_account_password d w hdr cur new s))"
  by (auto simp: put_account_password_def protected_def account_password_def Let_def
      split: option.splits sum.splits elim!: wf_store_update)

lemma wf_store_forgot_password: "wf_store s \<Longrightarrow> wf_store (snd (forgot_password d w em s))"
  by (auto simp: forgot_password_def Let_def split: option.splits sum.splits
      elim!: wf_store_update)

lemma wf_store_reset_password: "wf_store s \<Longrightarrow> wf_store (snd (reset_password d w t new s))"
  by (auto simp: reset_password_def Let_def split: option.splits sum.splits
      elim!: wf_store_update)

lemma wf_store_handle: "wf_store s \<Longrightarrow> wf_store (snd (handle d w req s))"
  by (cases req)
    (simp_all add: wf_store_signup wf_store_verify_email login_store
      wf_store_account_password wf_store_forgot_password wf_store_reset_password)

lemma wf_store_run: "wf_store s \<Longrightarrow> wf_store (run d evs s)"
  by (induction evs arbitrary: s) (auto simp: wf_store_handle)

lemma wf_store_reachable: "wf_store (run d evs empty_store)"
  by (rule wf_store_run) (simp add: wf_store_def empty_store_def)


subsection \<open>A verify token has one holder\<close>

text \<open>
  When the signup requests of a sequence draw different tokens, no two rows of the
  store it leads to hold the same verify token.
\<close>

lemma map_filter_Cons:
  "List.map_filter f (x # xs) = (case f x of None \<Rightarrow> [] | Some y \<Rightarrow> [y]) @ List.map_filter f xs"
  by (simp add: List.map_filter_def split: option.splits)

lemma map_filter_append:
  "List.map_filter f (xs @ ys) = List.map_filter f xs @ List.map_filter f ys"
  by (simp add: List.map_filter_def)

lemma map_filter_thinned:
  assumes "\<And>r. f (g r) = f r \<or> f (g r) = None"
  shows "set (List.map_filter f (map g xs)) \<subseteq> set (List.map_filter f xs) \<and>
         (distinct (List.map_filter f xs) \<longrightarrow> distinct (List.map_filter f (map g xs)))"
proof (induction xs)
  case Nil
  then show ?case by (simp add: List.map_filter_def)
next
  case (Cons x xs)
  from assms [of x] show ?case
  proof
    assume "f (g x) = f x"
    with Cons show ?thesis
      by (auto simp: map_filter_Cons split: option.splits)
  next
    assume "f (g x) = None"
    with Cons show ?thesis
      by (auto simp: map_filter_Cons split: option.splits)
  qed
qed

lemma verify_tokens_update:
  assumes "update_user i f s = Inr s'"
    and "\<And>r. verifyToken (f r) = verifyToken r \<or> verifyToken (f r) = None"
  shows "set (verify_tokens s') \<subseteq> set (verify_tokens s) \<and>
         (distinct (verify_tokens s) \<longrightarrow> distinct (verify_tokens s'))"
proof -
  from assms(1) have "users s' = map (\<lambda>u. if user_id u = i then f u else u) (users s)"
    by (auto simp: update_user_def split: if_splits)
  moreover have "verifyToken (if user_id r = i then f r else r) = verifyToken r \<or>
      verifyToken (if user_id r = i then f r else r) = None" for r
    using assms(2) [of r] by simp
  ultimately show ?thesis
    unfolding verify_tokens_def
    using map_filter_thinned [of verifyToken "\<lambda>u. if user_id u = i then f u else u" "users s"]
    by simp
qed

lemma verify_tokens_create:
  "create_user nm em pw vt s = Inr s' \<Longrightarrow> verify_tokens s' = verify_tokens s @ [vt]"
  by (auto simp: create_user_def verify_tokens_def map_filter_append map_filter_Cons
      List.map_filter_def split: if_splits)

lemma verify_tokens_handle:
  "set (verify_tokens (snd (handle d w req s))) \<subseteq>
     set (verify_tokens s) \<union> (if is_signup req then {toString_hex (randomBytes w)} else {}) \<and>
   (distinct (verify_tokens s) \<longrightarrow>
    (is_signup req \<longrightarrow> toString_hex (randomBytes w) \<notin> set (verify_tokens s)) \<longrightarrow>
    distinct (verify_tokens (snd (handle d w req s))))"
proof (cases req)
  case (Signup nm em pw)
  then show ?thesis
    by (auto simp: signup_def Let_def split: option.splits sum.splits
        dest!: verify_tokens_create)
next
  case (VerifyEmail t)
  then show ?thesis
    using verify_tokens_update [of _ "\<lambda>r. r\<lparr>isVerified := True, verifyToken := None\<rparr>" s]
    by (auto simp: verify_email_def split: option.splits sum.splits)
next
  case (Login em pw)
  then show ?thesis by (simp add: login_store)
next
  case (AccountPassword hdr cur new)
  then show ?thesis
    using verify_tokens_update
      [of _ "\<lambda>r. r\<lparr>password := bcrypt_hash d (bcrypt_salt w) new\<rparr>" s]
    by (auto simp: put_account_password_def protected_def account_password_def Let_def
        split: option.splits sum.splits)
next
  case (ForgotPassword em)
  then show ?thesis
    using verify_tokens_update
      [of _ "\<lambda>r. r\<lparr>resetToken := Some (toString_hex (randomBytes w)),
                   resetTokenExpiry := Some (Date_now w + 900000)\<rparr>" s]
    by (auto simp: forgot_password_def Let_def split: option.splits sum.splits)
next
  case (ResetPassword t new)
  then show ?thesis
    using verify_tokens_update
      [of _ "\<lambda>r. r\<lparr>password := bcrypt_hash d (bcrypt_salt w) new,
                   resetToken := None, resetTokenExpiry := None\<rparr>" s]
    by (auto simp: reset_password_def Let_def split: option.splits sum.splits)
qed

lemma verify_tokens_run:
  "distinct (verify_tokens s) \<Longrightarrow> distinct (signup_draws evs) \<Longrightarrow>
   set (verify_tokens s) \<inter> set (signup_draws evs) = {} \<Longrightarrow>
   distinct (verify_tokens (run d evs s))"
proof (induction evs arbitrary: s)
  case Nil
  then show ?case by simp
next
  case (Cons e evs)
  obtain w req where e: "e = (w, req)" by (cases e)
  let ?s' = "snd (handle d w req s)"
  note step = verify_tokens_handle [of d w req s]
  have draws: "signup_draws (e # evs) =
      (if is_signup req then [toString_hex (randomBytes w)] else []) @ signup_draws evs"
    by (simp add: signup_draws_def e)
  have "distinct (verify_tokens ?s')"
    using step Cons.prems(1,3) by (auto simp: draws split: if_splits)
  moreover have "distinct (signup_draws evs)"
    using Cons.prems(2) by (simp add: draws split: if_splits)
  moreover have "set (verify_tokens ?s') \<inter> set (signup_draws evs) = {}"
    using step Cons.prems(2,3) by (auto simp: draws split: if_splits)
  ultimately have "distinct (verify_tokens (run d evs ?s'))"
    by (rule Cons.IH)
  then show ?case by (simp add: e)
qed

lemma one_holder:
  "distinct (List.map_filter f xs) \<Longrightarrow> length (filter (\<lambda>v. f v = Some t) xs) \<le> 1"
proof (induction xs)
  case Nil
  then show ?case by simp
next
  case (Cons x xs)
  show ?case
  proof (cases "f x = Some t")
    case True
    with Cons.prems have "t \<notin> set (List.map_filter f xs)"
      by (simp add: map_filter_Cons)
    then have "filter (\<lambda>v. f v = Some t) xs = []"
      by (auto simp: List.map_filter_def filter_empty_conv image_iff)
    with True show ?thesis by simp
  next
    case False
    with Cons show ?thesis
      by (auto simp: map_filter_Cons split: option.splits)
  qed
qed

lemma verify_token_one_holder_reachable:
  assumes "distinct (signup_draws evs)"
  shows "length (filter (\<lambda>v. verifyToken v = Some t) (users (run d evs empty_store))) \<le> 1"
proof -
  have "distinct (verify_tokens (run d evs empty_store))"
    using assms by (intro verify_tokens_run) (simp_all add: verify_tokens_def empty_store_def List.map_filter_def)
  then show ?thesis
    unfolding verify_tokens_def by (rule one_holder)
qed

section \<open>Forgot password twice\<close>

lemma reset_password_no_holder:
  "\<not> holds_reset_token t s \<Longrightarrow>
   reset_password d w t newPass s = (reply 400 (Error ''Invalid or expired token''), s)"
  by (rule reset_password_miss) (simp add: holds_reset_token_def list_ex_iff reset_where_iff)

lemma no_holder_update:
  assumes "\<not> holds_reset_token t s" and "update_user i f s = Inr s'"
    and "\<And>r. resetToken r \<noteq> Some t \<Longrightarrow> resetToken (f r) \<noteq> Some t"
  shows "\<not> holds_reset_token t s'"
  using assms by (auto simp: holds_reset_token_def update_user_def list_ex_iff split: if_splits)

lemma no_holder_signup:
  "\<not> holds_reset_token t s \<Longrightarrow> \<not> holds_reset_token t (snd (signup d w nm em pw s))"
  by (auto simp: signup_def Let_def create_user_def holds_reset_token_def list_ex_iff
      split: option.splits sum.splits if_splits)

lemma no_holder_verify_email:
  "\<not> holds_reset_token t s \<Longrightarrow> \<not> holds_reset_token t (snd (verify_email tok s))"
  by (auto simp: verify_email_def split: option.splits sum.splits
      dest!: no_holder_update [rotated])

lemma no_holder_account_password:
  "\<not> holds_reset_token t s \<Longrightarrow>
   \<not> holds_reset_token t (snd (put_account_password d w hdr cur new s))"
  by (auto simp: put_account_password_def protected_def account_password_def Let_def
      split: option.splits sum.splits dest!: no_holder_update [rotated])

lemma no_holder_forgot_password:
  "\<not> holds_reset_token t s \<Longrightarrow> toString_hex (randomBytes w) \<noteq> t \<Longrightarrow>
   \<not> holds_reset_token t (snd (forgot_password d w em s))"
  by (auto simp: forgot_password_def Let_def split: option.splits sum.splits
      dest!: no_holder_update [rotated])

lemma no_holder_reset_password:
  "\<not> holds_reset_token t s \<Longrightarrow> \<not> holds_reset_token t (snd (reset_password d w tok new s))"
  by (auto simp: reset_password_def Let_def split: option.splits sum.splits
      dest!: no_holder_update [rotated])

lemma no_holder_handle:
  "\<not> holds_reset_token t s \<Longrightarrow> toString_hex (randomBytes w) \<noteq> t \<Longrightarrow>
   \<not> holds_reset_token t (snd (handle d w req s))"
  by (cases req)
    (simp_all add: no_holder_signup no_holder_verify_email login_store
      no_holder_account_password no_holder_forgot_password no_holder_reset_password)

lemma no_holder_run:
  "\<not> holds_reset_token t s \<Longrightarrow>
   \<forall>e\<in>set evs. toString_hex (randomBytes (fst e)) \<noteq> t \<Longrightarrow>
   \<not> holds_reset_token t (run d evs s)"
proof (induction evs arbitrary: s)
  case Nil
  then show ?case by simp
next
  case (Cons e evs)
  obtain w req where e: "e = (w, req)" by (cases e)
  with Cons.prems have "\<not> holds_reset_token t (snd (handle d w req s))"
    by (simp add: no_holder_handle)
  with Cons.prems e show ?case
    by (simp add: Cons.IH)
qed

lemma forgot_password_store:
  assumes "distinct (map user_id (users s))" and "distinct (map email (users s))"
    and "u \<in> set (users s)"
  shows "snd (forgot_password d w (email u) s) =
     s\<lparr>users := map (\<lambda>v. if v = u
          then u\<lparr>resetToken := Some (toString_hex (randomBytes w)),
                 resetTokenExpiry := Some (Date_now w + 900000)\<rparr>
          else v) (users s)\<rparr>"
proof -
  have "map (\<lambda>v. if v = u then v\<lparr>resetToken := x, resetTokenExpiry := y\<rparr> else v) (users s) =
        map (\<lambda>v. if v = u then u\<lparr>resetToken := x, resetTokenExpiry := y\<rparr> else v) (users s)"
    for x y
    by (intro map_cong refl) simp
  then show ?thesis
    by (simp add: forgot_password_def Let_def findUnique_email_row [OF assms(2,3)]
        update_user_row [OF assms(1,3)])
qed

subsection \<open>An account stays\<close>

lemma has_account_update:
  assumes "has_account i e s" and "update_user j f s = Inr s'"
    and "\<And>r. user_id (f r) = user_id r" and "\<And>r. email (f r) = email r"
  shows "has_account i e s'"
proof -
  from assms(1) obtain r where r: "r \<in> set (users s)" "user_id r = i" "email r = e"
    by (auto simp: has_account_def list_ex_iff)
  from assms(2) have s': "users s' = map (\<lambda>u. if user_id u = j then f u else u) (users s)"
    by (auto simp: update_user_def split: if_splits)
  let ?r' = "if user_id r = j then f r else r"
  from r(1) have "?r' \<in> set (users s')" by (simp add: s')
  moreover have "user_id ?r' = i" "email ?r' = e" using r(2,3) assms(3,4) by simp_all
  ultimately show ?thesis
    unfolding has_account_def list_ex_iff by blast
qed

lemma has_account_create:
  "has_account i e s \<Longrightarrow> create_user nm em pw vt s = Inr s' \<Longrightarrow> has_account i e s'"
  by (auto simp: has_account_def create_user_def list_ex_iff split: if_splits)

lemma has_account_handle: "has_account i e s \<Longrightarrow> has_account i e (snd (handle d w req s))"
proof (cases req)
  case (Signup nm em pw)
  then show "has_account i e s \<Longrightarrow> ?thesis"
    by (auto simp: signup_def Let_def split: option.splits sum.splits dest: has_account_create)
next
  case (VerifyEmail t)
  then show "has_account i e s \<Longrightarrow> ?thesis"
    by (auto simp: verify_email_def split: option.splits sum.splits elim!: has_account_update)
next
  case (Login em pw)
  then show "has_account i e s \<Longrightarrow> ?thesis" by (simp add: login_store)
next
  case (AccountPassword hdr cur new)
  then show "has_account i e s \<Longrightarrow> ?thesis"
    by (auto simp: put_account_password_def protected_def account_password_def Let_def
        split: option.splits sum.splits elim!: has_account_update)
next
  case (ForgotPassword em)
  then show "has_account i e s \<Longrightarrow> ?thesis"
    by (auto simp: forgot_password_def Let_def split: option.splits sum.splits
        elim!: has_account_update)
next
  case (ResetPassword t new)
  then show "has_account i e s \<Longrightarrow> ?thesis"
    by (auto simp: reset_password_def Let_def split: option.splits sum.splits
        elim!: has_account_update)
qed

lemma has_account_run: "has_account i e s \<Longrightarrow> has_account i e (run d evs s)"
  by (induction evs arbitrary: s) (auto simp: has_account_handle)

subsection \<open>A reset token nobody draws again stays with its holder\<close>

lemma only_holder_update:
  assumes "only_holder t i s" and "update_user j f s = Inr s'"
    and "\<And>r. user_id (f r) = user_id r"
    and "\<And>r. resetToken (f r) = Some t \<Longrightarrow> resetToken r = Some t"
  shows "only_holder t i s'"
proof -
  from assms(2) have s': "users s' = map (\<lambda>u. if user_id u = j then f u else u) (users s)"
    by (auto simp: update_user_def split: if_splits)
  from assms(1) have "\<forall>v\<in>set (users s). resetToken v = Some t \<longrightarrow> user_id v = i"
    by (simp add: only_holder_def list_all_iff)
  then have "\<forall>v\<in>set (users s). resetToken (if user_id v = j then f v else v) = Some t \<longrightarrow>
      user_id (if user_id v = j then f v else v) = i"
    using assms(3,4) by auto
  then have "\<forall>v\<in>set (users s'). resetToken v = Some t \<longrightarrow> user_id v = i"
    unfolding s' set_map by (simp only: ball_simps)
  then show ?thesis
    by (simp add: only_holder_def list_all_iff)
qed

lemma only_holder_create:
  "only_holder t i s \<Longrightarrow> create_user nm em pw vt s = Inr s' \<Longrightarrow> only_holder t i s'"
  by (auto simp: only_holder_def create_user_def list_all_iff split: if_splits)

lemma only_holder_handle:
  assumes "toString_hex (randomBytes w) \<noteq> t"
  shows "only_holder t i s \<Longrightarrow> only_holder t i (snd (handle d w req s))"
proof (cases req)
  case (Signup nm em pw)
  then show "only_holder t i s \<Longrightarrow> ?thesis"
    by (auto simp: signup_def Let_def split: option.splits sum.splits dest: only_holder_create)
next
  case (VerifyEmail tok)
  then show "only_holder t i s \<Longrightarrow> ?thesis"
    by (auto simp: verify_email_def split: option.splits sum.splits elim!: only_holder_update)
next
  case (Login em pw)
  then show "only_holder t i s \<Longrightarrow> ?thesis" by (simp add: login_store)
next
  case (AccountPassword hdr cur new)
  then show "only_holder t i s \<Longrightarrow> ?thesis"
    by (auto simp: put_account_password_def protected_def account_password_def Let_def
        split: option.splits sum.splits elim!: only_holder_update)
next
  case (ForgotPassword em)
  then show "only_holder t i s \<Longrightarrow> ?thesis"
    using assms
    by (auto simp: forgot_password_def Let_def split: option.splits sum.splits
        elim!: only_holder_update)
next
  case (ResetPassword tok new)
  then show "only_holder t i s \<Longrightarrow> ?thesis"
    by (auto simp: reset_password_def Let_def split: option.splits sum.splits
        elim!: only_holder_update)
qed

lemma only_holder_run:
  "only_holder t i s \<Longrightarrow>
   \<forall>e\<in>set evs. toString_hex (randomBytes (fst e)) \<noteq> t \<Longrightarrow>
   only_holder t i (run d evs s)"
proof (induction evs arbitrary: s)
  case Nil
  then show ?case by simp
next
  case (Cons e evs)
  obtain w req where e: "e = (w, req)" by (cases e)
  with Cons.prems have "only_holder t i (snd (handle d w req s))"
    by (simp add: only_holder_handle)
  with Cons.prems e show ?case
    by (simp add: Cons.IH)
qed


subsection \<open>The second request overwrites the first\<close>

lemma forgot_password_account:
  assumes "wf_store s" and "has_account i e s"
  shows "snd (forgot_password d w e s) =
     s\<lparr>users := map (\<lambda>v. if user_id v = i
          then v\<lparr>resetToken := Some (toString_hex (randomBytes w)),
                 resetTokenExpiry := Some (Date_now w + 900000)\<rparr>
          else v) (users s)\<rparr>"
proof -
  from assms(2) obtain r where r: "r \<in> set (users s)" "user_id r = i" "email r = e"
    by (auto simp: has_account_def list_ex_iff)
  from assms(1) have "distinct (map email (users s))"
    by (simp add: wf_store_def)
  from findUnique_email_row [OF this r(1)] r(3) have "findUnique_email e s = Some r"
    by simp
  then show ?thesis
    using update_user_present [OF r(1)] r(2)
    by (simp add: forgot_password_def Let_def)
qed

lemma forgot_password_kills:
  assumes "wf_store s" and "has_account i e s" and "only_holder t i s"
    and "toString_hex (randomBytes w) \<noteq> t"
  shows "\<not> holds_reset_token t (snd (forgot_password d w e s))"
proof -
  from assms(3) have "\<forall>v\<in>set (users s). resetToken v = Some t \<longrightarrow> user_id v = i"
    by (simp add: only_holder_def list_all_iff)
  with assms(4) show ?thesis
    by (auto simp: forgot_password_account [OF assms(1,2)] holds_reset_token_def list_ex_iff)
qed

lemma forgot_password_stores:
  assumes "wf_store s" and "has_account i e s"
  shows "\<exists>r\<in>set (users (snd (forgot_password d w e s))).
           user_id r = i \<and> email r = e \<and>
           resetToken r = Some (toString_hex (randomBytes w)) \<and>
           resetTokenExpiry r = Some (Date_now w + 900000)"
proof -
  from assms(2) obtain r where r: "r \<in> set (users s)" "user_id r = i" "email r = e"
    by (auto simp: has_account_def list_ex_iff)
  let ?r' = "r\<lparr>resetToken := Some (toString_hex (randomBytes w)),
                 resetTokenExpiry := Some (Date_now w + 900000)\<rparr>"
  from r(1,2) have "?r' \<in> set (users (snd (forgot_password d w e s)))"
    by (force simp: forgot_password_account [OF assms])
  moreover have "user_id ?r' = i \<and> email ?r' = e \<and>
      resetToken ?r' = Some (toString_hex (randomBytes w)) \<and>
      resetTokenExpiry ?r' = Some (Date_now w + 900000)"
    using r(2,3) by simp
  ultimately show ?thesis by blast
qed

lemma reset_password_latest:
  assumes "wf_store s" and "has_account i e s"
    and fresh: "\<forall>v\<in>set (users s). user_id v \<noteq> i \<longrightarrow>
            resetToken v \<noteq> Some (toString_hex (randomBytes w2))"
    and s2: "s2 = snd (forgot_password d w2 e s)"
  shows "reset_password d w3 (toString_hex (randomBytes w2)) newPass s2 =
     (if Date_now w3 \<le> Date_now w2 + 900000
      then (reply 200 (Message ''Password reset successful''),
            s2\<lparr>users := map (\<lambda>v. if user_id v = i
               then v\<lparr>password := bcrypt_hash d (bcrypt_salt w3) newPass,
                      resetToken := None, resetTokenExpiry := None\<rparr>
               else v) (users s2)\<rparr>)
      else (reply 400 (Error ''Invalid or expired token''), s2))"
proof -
  let ?t2 = "toString_hex (randomBytes w2)"
  have users2: "users s2 = map (\<lambda>v. if user_id v = i
          then v\<lparr>resetToken := Some ?t2, resetTokenExpiry := Some (Date_now w2 + 900000)\<rparr>
          else v) (users s)"
    by (simp add: s2 forgot_password_account [OF assms(1,2)])
  have matches: "user_id v = i \<and> Date_now w3 \<le> Date_now w2 + 900000"
    if "v \<in> set (users s2)" "reset_where ?t2 (Date_now w3) v" for v
    using that fresh by (auto simp: users2 reset_where_def split: if_splits)
  show ?thesis
  proof (cases "Date_now w3 \<le> Date_now w2 + 900000")
    case True
    obtain r where "r \<in> set (users s2)" "user_id r = i" "resetToken r = Some ?t2"
        "resetTokenExpiry r = Some (Date_now w2 + 900000)"
      using forgot_password_stores [OF assms(1,2), of d w2] s2 by blast
    with True have "\<exists>r\<in>set (users s2). reset_where ?t2 (Date_now w3) r"
      by (auto simp: reset_where_def)
    then obtain x where x: "findFirst (reset_where ?t2 (Date_now w3)) s2 = Some x"
      using find_None_set [of "reset_where ?t2 (Date_now w3)" "users s2"]
      by (cases "findFirst (reset_where ?t2 (Date_now w3)) s2") (auto simp: findFirst_def)
    from reset_password_hit [OF x, of d newPass] matches [of x] True
    show ?thesis by simp
  next
    case False
    with matches have "\<forall>v\<in>set (users s2). \<not> reset_where ?t2 (Date_now w3) v"
      by blast
    with False show ?thesis
      by (simp add: reset_password_miss)
  qed
qed

text \<open>
  C8. An account \<open>u\<close> in a store that respects the table constraints asks for a
  password reset twice, with any requests in between. The two requests issue the
  tokens \<open>t1\<close> and \<open>t2\<close>; the tokens are 32 random bytes each, so \<open>t1\<close> is taken to
  differ from \<open>t2\<close>, to be held by no other account and not to be drawn again by a
  later request. The first request stores \<open>t1\<close> with its expiry on \<open>u\<close>'s row; the
  second overwrites the pair on that row with \<open>t2\<close> and an expiry 15 minutes after the
  second request. From then on a reset-password request with \<open>t1\<close> fails with 400
  "Invalid or expired token" and changes nothing, at any time and after any further
  requests. The latest pair does complete a reset: with \<open>t2\<close> held by no other account,
  the request with \<open>t2\<close> succeeds up to the second expiry, replacing the password on
  \<open>u\<close>'s row and clearing the pair, and fails after it.
\<close>

theorem first_reset_token_dead:
  assumes "wf_store s" and "u \<in> set (users s)"
    and "t1 = toString_hex (randomBytes w1)" and "t2 = toString_hex (randomBytes w2)"
    and "t1 \<noteq> t2"
    and "\<forall>v\<in>set (users s). v \<noteq> u \<longrightarrow> resetToken v \<noteq> Some t1"
    and "\<forall>e\<in>set between. toString_hex (randomBytes (fst e)) \<noteq> t1"
    and "s1 = snd (forgot_password d w1 (email u) s)"
    and "s1' = run d between s1"
    and "s2 = snd (forgot_password d w2 (email u) s1')"
  shows "s1 = s\<lparr>users := map (\<lambda>v. if v = u
                  then u\<lparr>resetToken := Some t1, resetTokenExpiry := Some (Date_now w1 + 900000)\<rparr>
                  else v) (users s)\<rparr> \<and>
         s2 = s1'\<lparr>users := map (\<lambda>v. if user_id v = user_id u
                  then v\<lparr>resetToken := Some t2, resetTokenExpiry := Some (Date_now w2 + 900000)\<rparr>
                  else v) (users s1')\<rparr> \<and>
         (\<forall>evs. (\<forall>e\<in>set evs. toString_hex (randomBytes (fst e)) \<noteq> t1) \<longrightarrow>
            reset_password d w3 t1 newPass (run d evs s2) =
              (reply 400 (Error ''Invalid or expired token''), run d evs s2)) \<and>
         ((\<forall>v\<in>set (users s1'). user_id v \<noteq> user_id u \<longrightarrow> resetToken v \<noteq> Some t2) \<longrightarrow>
            reset_password d w3 t2 newPass s2 =
              (if Date_now w3 \<le> Date_now w2 + 900000
               then (reply 200 (Message ''Password reset successful''),
                     s2\<lparr>users := map (\<lambda>v. if user_id v = user_id u
                        then v\<lparr>password := bcrypt_hash d (bcrypt_salt w3) newPass,
                               resetToken := None, resetTokenExpiry := None\<rparr>
                        else v) (users s2)\<rparr>)
               else (reply 400 (Error ''Invalid or expired token''), s2)))"
proof -
  have ids: "distinct (map user_id (users s))" and emails: "distinct (map email (users s))"
    using assms(1) by (simp_all add: wf_store_def)
  have s1: "s1 = s\<lparr>users := map (\<lambda>v. if v = u
                  then u\<lparr>resetToken := Some t1, resetTokenExpiry := Some (Date_now w1 + 900000)\<rparr>
                  else v) (users s)\<rparr>"
    using forgot_password_store [OF ids emails assms(2), of d w1] assms(3,8) by simp
  have "wf_store s1"
    unfolding assms(8) using assms(1) by (rule wf_store_forgot_password)
  then have wf: "wf_store s1'"
    unfolding assms(9) by (rule wf_store_run)
  have "has_account (user_id u) (email u) s"
    using assms(2) by (auto simp: has_account_def list_ex_iff)
  then have "has_account (user_id u) (email u) s1"
    unfolding assms(8) using has_account_handle [of _ _ s d w1 "ForgotPassword (email u)"]
    by simp
  then have acct: "has_account (user_id u) (email u) s1'"
    unfolding assms(9) by (rule has_account_run)
  have "only_holder t1 (user_id u) s1"
    using assms(6) by (auto simp: s1 only_holder_def list_all_iff)
  then have sole: "only_holder t1 (user_id u) s1'"
    unfolding assms(9) using assms(7) by (rule only_holder_run)
  have s2: "s2 = s1'\<lparr>users := map (\<lambda>v. if user_id v = user_id u
                  then v\<lparr>resetToken := Some t2, resetTokenExpiry := Some (Date_now w2 + 900000)\<rparr>
                  else v) (users s1')\<rparr>"
    using forgot_password_account [OF wf acct, of d w2] assms(4,10) by simp
  have dead: "\<not> holds_reset_token t1 s2"
    unfolding assms(10) using wf acct sole
  proof (rule forgot_password_kills)
    show "toString_hex (randomBytes w2) \<noteq> t1" using assms(4,5) by simp
  qed
  have later: "reset_password d w3 t1 newPass (run d evs s2) =
      (reply 400 (Error ''Invalid or expired token''), run d evs s2)"
    if "\<forall>e\<in>set evs. toString_hex (randomBytes (fst e)) \<noteq> t1"
    for evs :: "(env \<times> request) list"
    using no_holder_run [OF dead that] by (rule reset_password_no_holder)
  have latest: "reset_password d w3 t2 newPass s2 =
              (if Date_now w3 \<le> Date_now w2 + 900000
               then (reply 200 (Message ''Password reset successful''),
                     s2\<lparr>users := map (\<lambda>v. if user_id v = user_id u
                        then v\<lparr>password := bcrypt_hash d (bcrypt_salt w3) newPass,
                               resetToken := None, resetTokenExpiry := None\<rparr>
                        else v) (users s2)\<rparr>)
               else (reply 400 (Error ''Invalid or expired token''), s2))"
    if "\<forall>v\<in>set (users s1'). user_id v \<noteq> user_id u \<longrightarrow> resetToken v \<noteq> Some t2"
    using reset_password_latest [OF wf acct _ assms(10), where ?w3.0 = w3 and newPass = newPass] that assms(4)
    by simp
  show ?thesis
  proof (intro conjI allI impI)
    show "s1 = s\<lparr>users := map (\<lambda>v. if v = u
                  then u\<lparr>resetToken := Some t1, resetTokenExpiry := Some (Date_now w1 + 900000)\<rparr>
                  else v) (users s)\<rparr>" by (rule s1)
    show "s2 = s1'\<lparr>users := map (\<lambda>v. if user_id v = user_id u
                  then v\<lparr>resetToken := Some t2, resetTokenExpiry := Some (Date_now w2 + 900000)\<rparr>
                  else v) (users s1')\<rparr>" by (rule s2)
  next
    fix evs :: "(env \<times> request) list"
    assume "\<forall>e\<in>set evs. toString_hex (randomBytes (fst e)) \<noteq> t1"
    then show "reset_password d w3 t1 newPass (run d evs s2) =
      (reply 400 (Error ''Invalid or expired token''), run d evs s2)" by (rule later)
  next
    assume "\<forall>v\<in>set (users s1'). user_id v \<noteq> user_id u \<longrightarrow> resetToken v \<noteq> Some t2"
    then show "reset_password d w3 t2 newPass s2 =
              (if Date_now w3 \<le> Date_now w2 + 900000
               then (reply 200 (Message ''Password reset successful''),
                     s2\<lparr>users := map (\<lambda>v. if user_id v = user_id u
                        then v\<lparr>password := bcrypt_hash d (bcrypt_salt w3) newPass,
                               resetToken := None, resetTokenExpiry := None\<rparr>
                        else v) (users s2)\<rparr>)
               else (reply 400 (Error ''Invalid or expired token''), s2))" by (rule latest)
  qed
qed


lemma demo_hex2: "toString_hex demo_bytes2 =
   ''ffab807f100a0100ffab807f100a0100ffab807f100a0100ffab807f100a0100''"
  by (simp add: toString_hex_def hex_byte_def hex_digit_def demo_bytes2_def)

text \<open>
  Ann asks at 1000, logs in at 1500 and asks again at 2000; at 3000 the first token is
  refused and the second resets her password.
\<close>

theorem first_reset_token_dead_witness:
  "twice_forgotten =
     \<lparr>users = [ann\<lparr>resetToken :=
                     Some ''ffab807f100a0100ffab807f100a0100ffab807f100a0100ffab807f100a0100'',
                   resetTokenExpiry := Some 902000\<rparr>, bob], next_id = 3\<rparr> \<and>
   reset_password demo_deps (demo_env 3000 [])
       ''00010a107f80abff00010a107f80abff00010a107f80abff00010a107f80abff'' ''pw2''
       twice_forgotten =
     (reply 400 (Error ''Invalid or expired token''), twice_forgotten) \<and>
   reset_password demo_deps (demo_env 3000 [])
       ''ffab807f100a0100ffab807f100a0100ffab807f100a0100ffab807f100a0100'' ''pw2''
       twice_forgotten =
     (reply 200 (Message ''Password reset successful''),
      \<lparr>users = [ann\<lparr>password := ''saltpw2'', resetToken := None, resetTokenExpiry := None\<rparr>, bob],
       next_id = 3\<rparr>)"
proof -
  let ?t1 = "''00010a107f80abff00010a107f80abff00010a107f80abff00010a107f80abff''"
  let ?t2 = "''ffab807f100a0100ffab807f100a0100ffab807f100a0100ffab807f100a0100''"
  let ?s1 = "snd (forgot_password demo_deps (demo_env 1000 demo_bytes) (email ann) demo_store)"
  have wf: "wf_store demo_store" and mem: "ann \<in> set (users demo_store)"
    by (simp_all add: wf_store_def demo_store_def ann_def bob_def)
  have t1: "?t1 = toString_hex (randomBytes (demo_env 1000 demo_bytes))"
    and t2: "?t2 = toString_hex (randomBytes (demo_env 2000 demo_bytes2))"
    by (simp_all add: demo_env_def demo_hex demo_hex2)
  have differ: "?t1 \<noteq> ?t2" by simp
  have fresh1: "\<forall>v\<in>set (users demo_store). v \<noteq> ann \<longrightarrow> resetToken v \<noteq> Some ?t1"
    by (simp add: demo_store_def bob_def)
  have quiet: "\<forall>e\<in>set in_between. toString_hex (randomBytes (fst e)) \<noteq> ?t1"
    by (simp add: in_between_def demo_env_def toString_hex_def)
  have s2: "twice_forgotten =
      snd (forgot_password demo_deps (demo_env 2000 demo_bytes2) (email ann)
        (run demo_deps in_between ?s1))"
    by (simp add: twice_forgotten_def ann_def)
  note dead = first_reset_token_dead [OF wf mem t1 t2 differ fresh1 quiet refl refl s2,
      of "demo_env 3000 []" "''pw2''"]
  from dead have "?s1 = demo_store\<lparr>users := map (\<lambda>v. if v = ann
         then ann\<lparr>resetToken := Some ?t1,
                  resetTokenExpiry := Some (Date_now (demo_env 1000 demo_bytes) + 900000)\<rparr>
         else v) (users demo_store)\<rparr>"
    by blast
  then have s1': "run demo_deps in_between ?s1 =
      \<lparr>users = [ann\<lparr>resetToken := Some ?t1, resetTokenExpiry := Some 901000\<rparr>, bob],
       next_id = 3\<rparr>"
    by (simp add: in_between_def login_store demo_store_def demo_env_def ann_def bob_def)
  from dead have "twice_forgotten =
      (run demo_deps in_between ?s1)\<lparr>users := map (\<lambda>v. if user_id v = user_id ann
         then v\<lparr>resetToken := Some ?t2,
                resetTokenExpiry := Some (Date_now (demo_env 2000 demo_bytes2) + 900000)\<rparr>
         else v) (users (run demo_deps in_between ?s1))\<rparr>"
    by blast
  then have state: "twice_forgotten =
     \<lparr>users = [ann\<lparr>resetToken := Some ?t2, resetTokenExpiry := Some 902000\<rparr>, bob],
      next_id = 3\<rparr>"
    unfolding s1' by (simp add: demo_env_def ann_def bob_def)
  have "\<forall>e\<in>set []. toString_hex (randomBytes (fst e)) \<noteq> ?t1"
    by simp
  with dead have "reset_password demo_deps (demo_env 3000 []) ?t1 ''pw2''
       (run demo_deps [] twice_forgotten) =
     (reply 400 (Error ''Invalid or expired token''), run demo_deps [] twice_forgotten)"
    by blast
  then have old: "reset_password demo_deps (demo_env 3000 []) ?t1 ''pw2'' twice_forgotten =
     (reply 400 (Error ''Invalid or expired token''), twice_forgotten)"
    by simp
  have fresh2: "\<forall>v\<in>set (users (run demo_deps in_between ?s1)).
      user_id v \<noteq> user_id ann \<longrightarrow> resetToken v \<noteq> Some ?t2"
    unfolding s1' by (simp add: ann_def bob_def)
  with dead have "reset_password demo_deps (demo_env 3000 []) ?t2 ''pw2'' twice_forgotten =
     (if Date_now (demo_env 3000 []) \<le> Date_now (demo_env 2000 demo_bytes2) + 900000
      then (reply 200 (Message ''Password reset successful''),
            twice_forgotten\<lparr>users := map (\<lambda>v. if user_id v = user_id ann
               then v\<lparr>password := bcrypt_hash demo_deps (bcrypt_salt (demo_env 3000 [])) ''pw2'',
                      resetToken := None, resetTokenExpiry := None\<rparr>
               else v) (users twice_forgotten)\<rparr>)
      else (reply 400 (Error ''Invalid or expired token''), twice_forgotten))"
    by blast
  then have new: "reset_password demo_deps (demo_env 3000 []) ?t2 ''pw2'' twice_forgotten =
     (reply 200 (Message ''Password reset successful''),
      \<lparr>users = [ann\<lparr>password := ''saltpw2'', resetToken := None, resetTokenExpiry := None\<rparr>, bob],
       next_id = 3\<rparr>)"
    unfolding state by (simp add: demo_env_def demo_deps_def ann_def bob_def)
  from state old new show ?thesis by (intro conjI)
qed

end
